theory Spec2Isabelle
  imports Complex_Main "HOL-Library.Sublist"
begin

section \<open>The package lifecycle handler (snakepit\_handler.py)\<close>

text \<open>
  The handler keeps one \<open>PackageMetadata\<close> object per package name in the dictionary
  \<open>active_packages\<close>, runs external processes (container engine, virtual environment,
  installer), removes sandbox directories and appends to a JSON history file.  The model is
  a state record that every method takes and returns.  What the outside world answers
  (a return code, a raised exception, the clock, a fresh UUID) is an explicit argument of
  each method, so that every \<open>except\<close> branch of the source is a branch of the model.
\<close>

subsection \<open>Data\<close>

datatype PackageStatus =
  PENDING | INGESTING | TESTING | COLLABORATING | FAILED | APPROVED | CONSCRIPTED | DESTROYED

text \<open>The \<open>.value\<close> of each enum member.\<close>

fun status_value :: "PackageStatus \<Rightarrow> string" where
  "status_value PENDING = ''pending''"
| "status_value INGESTING = ''ingesting''"
| "status_value TESTING = ''testing''"
| "status_value COLLABORATING = ''collaborating''"
| "status_value FAILED = ''failed''"
| "status_value APPROVED = ''approved''"
| "status_value CONSCRIPTED = ''conscripted''"
| "status_value DESTROYED = ''destroyed''"

text \<open>Values stored in \<open>validation_results\<close>: captured text and the return code.\<close>

datatype pyval = PStr string | PInt int

type_synonym timestamp = rat

text \<open>
  \<open>PackageMetadata\<close>, field by field.  The last field, \<open>trail\<close>, is not a field of the
  source: it is a ghost list of every value ever assigned to \<open>status\<close>, oldest first, kept
  so that statements about the order of status changes inside one method call can be made.
  No method reads it.
\<close>

record PackageMetadata =
  name :: string
  version :: string
  status :: PackageStatus
  ingest_time :: timestamp
  test_time :: "timestamp option"
  install_time :: "timestamp option"
  sandbox_id :: string
  test_script :: "string option"
  error_log :: "string list"
  success_log :: "string list"
  dependencies :: "string list"
  validation_results :: "string \<rightharpoonup> pyval"
  trail :: "PackageStatus list"

text \<open>The dictionary that \<open>_save_package_history\<close> appends to the history file.\<close>

record history_entry =
  h_name :: string
  h_version :: string
  h_status :: string
  h_ingest_time :: timestamp
  h_test_time :: "timestamp option"
  h_install_time :: "timestamp option"
  h_sandbox_id :: string
  h_error_log :: "string list"
  h_success_log :: "string list"
  h_validation_results :: "string \<rightharpoonup> pyval"

datatype log_level = INFO | WARNING | ERROR

text \<open>
  The handler object.  \<open>logger\<close> is the list of calls made to \<open>self.logger\<close>, oldest
  first (the pictographs that start most messages are left out of the message text);
  \<open>history_file\<close> is the list of entries that can be read from the history file, \<open>None\<close>
  while the file does not exist or holds nothing that can be parsed (a write that failed
  part-way leaves it so; \<open>json.load\<close> then raises in every later call, which is an answer
  of the outside world to that call); \<open>snakepit_toml\<close> is the \<open>dependencies\<close> list of \<open>snakepit.toml\<close>, \<open>None\<close> while
  the file or the key is missing.
\<close>

record handler =
  dry_run :: bool
  container_engine :: "string option"
  sandbox_dir :: string
  win32 :: bool
  active_packages :: "string \<rightharpoonup> PackageMetadata"
  history_file :: "history_entry list option"
  snakepit_toml :: "string list option"
  logger :: "(log_level \<times> string) list"

definition emit :: "log_level \<Rightarrow> string \<Rightarrow> handler \<Rightarrow> handler" where
  "emit lv msg h = h\<lparr>logger := logger h @ [(lv, msg)]\<rparr>"

text \<open>Assignment to \<open>pkg_meta.status\<close>.\<close>

definition set_status :: "PackageStatus \<Rightarrow> PackageMetadata \<Rightarrow> PackageMetadata" where
  "set_status s m = m\<lparr>status := s, trail := trail m @ [s]\<rparr>"

definition add_error :: "string \<Rightarrow> PackageMetadata \<Rightarrow> PackageMetadata" where
  "add_error e m = m\<lparr>error_log := error_log m @ [e]\<rparr>"

definition add_success :: "string \<Rightarrow> PackageMetadata \<Rightarrow> PackageMetadata" where
  "add_success e m = m\<lparr>success_log := success_log m @ [e]\<rparr>"

text \<open>
  \<open>pkg_meta\<close> is a reference to the object stored in \<open>active_packages\<close>; a mutation of
  \<open>pkg_meta\<close> is a mutation of the entry under the package's name.
\<close>

definition mutate :: "string \<Rightarrow> (PackageMetadata \<Rightarrow> PackageMetadata) \<Rightarrow> handler \<Rightarrow> handler" where
  "mutate n f h =
     (case active_packages h n of
        None \<Rightarrow> h
      | Some m \<Rightarrow> h\<lparr>active_packages := (active_packages h)(n \<mapsto> f m)\<rparr>)"

subsection \<open>What the outside world answers\<close>

text \<open>A finished child process (return code, captured stderr) or the exception raised.\<close>

datatype proc_outcome = Exited int string | Raised string

text \<open>The test run: finished (return code, stdout, stderr), timed out, or another exception.\<close>

datatype run_outcome = Completed int string string | TimedOut | RunRaised string

text \<open>Removal of the sandbox directory: nothing there, removed, or \<open>rmtree\<close> raised.\<close>

datatype rm_outcome = NoSandboxDir | Removed | RemovalRaises string

record ingest_env =
  ie_time :: timestamp
  ie_uuid :: string
  ie_mkdir :: "string option"
  ie_create :: proc_outcome

record test_env =
  te_time :: timestamp
  te_run :: run_outcome

text \<open>
  For \<open>kill_destroy\<close>: how the directory removal ends, and the exception, if any, raised
  while \<open>_save_package_history\<close> reads or writes the history file.  \<open>ke_history_truncated\<close>
  says that the exception came after \<open>open(..., 'w')\<close> had emptied the file (it matters only
  when there is an exception).
\<close>

record kill_env =
  ke_rmtree :: rm_outcome
  ke_history_error :: "string option"
  ke_history_truncated :: bool

text \<open>The probe for a \<open>snakepit\<close> binary: the path found, none found, or an exception
  other than \<open>FileNotFoundError\<close> and \<open>TimeoutExpired\<close> (those two are caught in the loop).\<close>

datatype probe_outcome = Found string | NotFound | ProbeRaised string

record conscript_env =
  ce_time :: timestamp
  ce_probe :: probe_outcome
  ce_install :: proc_outcome
  ce_toml_error :: "string option"
  ce_kill :: kill_env

subsection \<open>Phase 1: ingest\<close>

definition squote :: string where
  "squote = [CHR 0x27]"

definition backslash :: char where
  "backslash = CHR 0x5C"

text \<open>
  \<open>repr\<close> of a \<open>bytes\<close> object, which is what an f-string prints for it: \<open>b'...'\<close> (with
  double quotes when the bytes hold a single quote and no double quote), the backslash and
  the quote escaped, tab, line feed and carriage return as \<open>\\t\<close>, \<open>\\n\<close>, \<open>\\r\<close>, every other
  byte outside the printable ASCII range as \<open>\\xNN\<close>.
\<close>

definition hex_digit :: "nat \<Rightarrow> char" where
  "hex_digit n = ''0123456789abcdef'' ! (n mod 16)"

definition escape_byte :: "char \<Rightarrow> char \<Rightarrow> string" where
  "escape_byte q c =
     (let n = (of_char c :: nat)
      in if c = backslash \<or> c = q then [backslash, c]
         else if n = 9 then [backslash, CHR ''t'']
         else if n = 10 then [backslash, CHR ''n'']
         else if n = 13 then [backslash, CHR ''r'']
         else if n < 32 \<or> 127 \<le> n then [backslash, CHR ''x'', hex_digit (n div 16), hex_digit n]
         else [c])"

definition bytes_repr :: "string \<Rightarrow> string" where
  "bytes_repr bs =
     (let q = (if CHR 0x27 \<in> set bs \<and> CHR 0x22 \<notin> set bs then CHR 0x22 else CHR 0x27)
      in ''b'' @ [q] @ concat (map (escape_byte q) bs) @ [q])"

text \<open>\<open>Path(a) / b\<close>, written with the separator \<open>/\<close> on every platform.\<close>

definition path_join :: "string \<Rightarrow> string \<Rightarrow> string" where
  "path_join a b = a @ ''/'' @ b"

definition install_spec :: "PackageMetadata \<Rightarrow> string" where
  "install_spec m = (if version m \<noteq> [] then name m @ ''=='' @ version m else name m)"

definition create_container_sandbox :: "proc_outcome \<Rightarrow> PackageMetadata \<Rightarrow> bool \<times> PackageMetadata" where
  "create_container_sandbox out m =
     (case out of
        Exited rc err \<Rightarrow>
          if rc = 0 then (True, add_success ''Container sandbox created successfully'' m)
          else (False, add_error (''Container build failed: '' @ err) m)
      | Raised e \<Rightarrow> (False, add_error (''Container sandbox creation failed: '' @ e) m))"

definition python_path_of :: "bool \<Rightarrow> string \<Rightarrow> string" where
  "python_path_of w sandbox_path =
     (if w then path_join (path_join (path_join sandbox_path ''venv'') ''Scripts'') ''python''
      else path_join (path_join (path_join sandbox_path ''venv'') ''bin'') ''python'')"

text \<open>
  \<open>_create_venv_sandbox\<close>.  Both \<open>subprocess.run\<close> calls have \<open>check=True\<close> and capture the
  output as bytes: a non-zero return code raises \<open>CalledProcessError\<close>, whose \<open>stderr\<close> is
  printed into the error text by its \<open>repr\<close>.
\<close>

definition create_venv_sandbox ::
  "bool \<Rightarrow> string \<Rightarrow> proc_outcome \<Rightarrow> PackageMetadata \<Rightarrow> bool \<times> PackageMetadata" where
  "create_venv_sandbox w sandbox_path out m =
     (case out of
        Exited rc err \<Rightarrow>
          if rc = 0 then
            (True,
             add_success ''Virtual environment sandbox created successfully''
               (m\<lparr>validation_results := (validation_results m)
                    (''python_path'' \<mapsto> PStr (python_path_of w sandbox_path),
                     ''sandbox_path'' \<mapsto> PStr sandbox_path)\<rparr>))
          else (False, add_error (''Venv sandbox creation failed: '' @ bytes_repr err) m)
      | Raised e \<Rightarrow> (False, add_error (''Venv sandbox creation failed: '' @ e) m))"

definition new_metadata :: "ingest_env \<Rightarrow> string \<Rightarrow> string \<Rightarrow> string option \<Rightarrow> PackageMetadata" where
  "new_metadata env n v ts =
     \<lparr>name = n, version = v, status = INGESTING, ingest_time = ie_time env,
      test_time = None, install_time = None, sandbox_id = ie_uuid env, test_script = ts,
      error_log = [], success_log = [], dependencies = [], validation_results = Map.empty,
      trail = [INGESTING]\<rparr>"

text \<open>
  The body of the \<open>try\<close> block of \<open>ingest\<close>, as the change it makes to the new object:
  \<open>mkdir\<close> may raise (caught by \<open>ingest\<close> itself), the two sandbox builders catch their own
  exceptions and return a boolean.
\<close>

definition ingest_body :: "handler \<Rightarrow> ingest_env \<Rightarrow> PackageMetadata \<Rightarrow> bool \<times> PackageMetadata" where
  "ingest_body h env m =
     (case ie_mkdir env of
        Some e \<Rightarrow> (False, add_error (''Ingestion error: '' @ e) (set_status FAILED m))
      | None \<Rightarrow>
          (let sandbox_path = path_join (sandbox_dir h) (sandbox_id m);
               (success, m1) =
                 (if container_engine h \<noteq> None then create_container_sandbox (ie_create env) m
                  else create_venv_sandbox (win32 h) sandbox_path (ie_create env) m)
           in if success then (True, set_status TESTING m1)
              else (False, add_error ''Failed to create sandbox environment'' (set_status FAILED m1))))"

definition ingest ::
  "handler \<Rightarrow> ingest_env \<Rightarrow> string \<Rightarrow> string \<Rightarrow> string option \<Rightarrow> PackageMetadata \<times> handler" where
  "ingest h env package_name v ts =
     (let h1 = emit INFO (''INGEST: Starting ingestion of '' @ package_name) h;
          pkg_meta = new_metadata env package_name v ts;
          h2 = h1\<lparr>active_packages := (active_packages h1)(package_name \<mapsto> pkg_meta)\<rparr>;
          (ok, m) = ingest_body h2 env pkg_meta;
          h3 = mutate package_name (\<lambda>_. m) h2;
          h4 = (if ok then emit INFO (''INGEST: Successfully ingested '' @ package_name) h3
                else case ie_mkdir env of
                  Some e \<Rightarrow> emit ERROR (''INGEST: Error ingesting '' @ package_name @ '': '' @ e) h3
                | None \<Rightarrow> emit ERROR (''INGEST: Failed to ingest '' @ package_name) h3)
      in (m, h4))"

subsection \<open>Phase 2: test\_collaborate\<close>

definition record_run :: "int \<Rightarrow> string \<Rightarrow> string \<Rightarrow> PackageMetadata \<Rightarrow> PackageMetadata" where
  "record_run rc out err m =
     m\<lparr>validation_results := (validation_results m)
          (''stdout'' \<mapsto> PStr out, ''stderr'' \<mapsto> PStr err, ''returncode'' \<mapsto> PInt rc)\<rparr>"

definition test_in_container :: "run_outcome \<Rightarrow> PackageMetadata \<Rightarrow> bool \<times> PackageMetadata" where
  "test_in_container r m =
     (case r of
        Completed rc out err \<Rightarrow>
          if rc = 0 then (True, add_success ''Container validation passed'' (record_run rc out err m))
          else (False, add_error (''Container validation failed: '' @ err) (record_run rc out err m))
      | TimedOut \<Rightarrow> (False, add_error ''Container validation timed out'' m)
      | RunRaised e \<Rightarrow> (False, add_error (''Container validation error: '' @ e) m))"

text \<open>
  \<open>_test_in_venv\<close> first reads \<open>validation_results['python_path']\<close> and
  \<open>validation_results['sandbox_path']\<close>; a missing key raises \<open>KeyError\<close>, which the method's
  own \<open>except Exception\<close> turns into a logged error and \<open>False\<close>.
\<close>

definition test_in_venv :: "run_outcome \<Rightarrow> PackageMetadata \<Rightarrow> bool \<times> PackageMetadata" where
  "test_in_venv r m =
     (case validation_results m ''python_path'' of
        None \<Rightarrow> (False, add_error (''Venv validation error: '' @ squote @ ''python_path'' @ squote) m)
      | Some _ \<Rightarrow>
         (case validation_results m ''sandbox_path'' of
            None \<Rightarrow> (False, add_error (''Venv validation error: '' @ squote @ ''sandbox_path'' @ squote) m)
          | Some _ \<Rightarrow>
             (case r of
                Completed rc out err \<Rightarrow>
                  if rc = 0 then (True, add_success ''Venv validation passed'' (record_run rc out err m))
                  else (False, add_error (''Venv validation failed: '' @ err) (record_run rc out err m))
              | TimedOut \<Rightarrow> (False, add_error ''Venv validation timed out'' m)
              | RunRaised e \<Rightarrow> (False, add_error (''Venv validation error: '' @ e) m))))"

text \<open>
  The change \<open>test_collaborate\<close> makes to the object.  Both test runners return a boolean
  and raise nothing, so the outer \<open>except\<close> of the source has no input that reaches it.
\<close>

definition test_body :: "handler \<Rightarrow> test_env \<Rightarrow> PackageMetadata \<Rightarrow> bool \<times> PackageMetadata" where
  "test_body h env m =
     (let m1 = (set_status COLLABORATING m)\<lparr>test_time := Some (te_time env)\<rparr>;
          (success, m2) =
            (if container_engine h \<noteq> None then test_in_container (te_run env) m1
             else test_in_venv (te_run env) m1)
      in if success then (True, add_success ''Package validation successful'' (set_status APPROVED m2))
         else (False, set_status FAILED m2))"

definition test_collaborate :: "handler \<Rightarrow> test_env \<Rightarrow> string \<Rightarrow> bool \<times> handler" where
  "test_collaborate h env package_name =
     (case active_packages h package_name of
        None \<Rightarrow>
          (False, emit ERROR (''Package '' @ package_name @ '' not found in active packages'') h)
      | Some pkg_meta \<Rightarrow>
          (let h1 = emit INFO (''TEST/COLLABORATE: Validating '' @ package_name) h;
               (ok, m) = test_body h1 env pkg_meta;
               h2 = mutate package_name (\<lambda>_. m) h1
           in if ok then
                (True, emit INFO (''TEST/COLLABORATE: '' @ package_name @ '' approved for installation'') h2)
              else
                (False, emit ERROR (''TEST/COLLABORATE: '' @ package_name @ '' failed validation'') h2)))"

subsection \<open>Phase 3: kill\_destroy, and the history file\<close>

definition entry_of :: "PackageMetadata \<Rightarrow> history_entry" where
  "entry_of m =
     \<lparr>h_name = name m, h_version = version m, h_status = status_value (status m),
      h_ingest_time = ingest_time m, h_test_time = test_time m,
      h_install_time = install_time m, h_sandbox_id = sandbox_id m,
      h_error_log = error_log m, h_success_log = success_log m,
      h_validation_results = validation_results m\<rparr>"

text \<open>\<open>history[-1000:]\<close> when the list is longer than 1000.\<close>

definition keep_last_1000 :: "'a list \<Rightarrow> 'a list" where
  "keep_last_1000 xs = (if length xs > 1000 then drop (length xs - 1000) xs else xs)"

text \<open>
  \<open>_save_package_history\<close>: any exception while reading or writing the file is caught and
  logged as a warning.  The file is then as it was, unless the exception was raised after
  the file had been opened for writing: then nothing can be read from it any more.
\<close>

definition save_package_history ::
  "handler \<Rightarrow> string option \<Rightarrow> bool \<Rightarrow> PackageMetadata \<Rightarrow> handler" where
  "save_package_history h err truncated m =
     (case err of
        Some e \<Rightarrow>
          emit WARNING (''Could not save package history: '' @ e)
            (if truncated then h\<lparr>history_file := None\<rparr> else h)
      | None \<Rightarrow>
          (let history = (case history_file h of None \<Rightarrow> [] | Some es \<Rightarrow> es)
           in h\<lparr>history_file := Some (keep_last_1000 (history @ [entry_of m]))\<rparr>))"

text \<open>
  \<open>kill_destroy\<close>.  Removing the container image is wrapped in its own \<open>try ... except: pass\<close>
  and changes nothing the handler keeps.  Everything from the directory removal to the
  deletion from \<open>active_packages\<close> stands in one \<open>try\<close> block: when the removal raises, the
  statements after it are skipped, the error is logged and \<open>False\<close> is returned.
\<close>

definition kill_destroy :: "handler \<Rightarrow> kill_env \<Rightarrow> string \<Rightarrow> bool \<times> handler" where
  "kill_destroy h env package_name =
     (case active_packages h package_name of
        None \<Rightarrow>
          (False, emit WARNING (''Package '' @ package_name @ '' not found for destruction'') h)
      | Some pkg_meta \<Rightarrow>
          (let h1 = emit INFO (''KILL/DESTROY: Cleaning up '' @ package_name) h
           in case ke_rmtree env of
                RemovalRaises e \<Rightarrow>
                  (False,
                   emit ERROR (''KILL/DESTROY: Error cleaning up '' @ package_name @ '': '' @ e) h1)
              | _ \<Rightarrow>
                  (let m = add_success ''Package sandbox destroyed'' (set_status DESTROYED pkg_meta);
                       h2 = save_package_history h1 (ke_history_error env) (ke_history_truncated env) m;
                       h3 = h2\<lparr>active_packages := (active_packages h2)(package_name := None)\<rparr>
                   in (True, emit INFO (''KILL/DESTROY: Cleaned up '' @ package_name) h3))))"

subsection \<open>Phase 4: conscript\_install\<close>

definition dependency_spec :: "PackageMetadata \<Rightarrow> string" where
  "dependency_spec m = (if version m \<noteq> [] then name m @ ''>='' @ version m else name m)"

definition update_dependency_graph :: "handler \<Rightarrow> string option \<Rightarrow> PackageMetadata \<Rightarrow> handler" where
  "update_dependency_graph h err m =
     (case err of
        Some e \<Rightarrow> emit WARNING (''Could not update dependency graph: '' @ e) h
      | None \<Rightarrow>
          (let deps = (case snakepit_toml h of None \<Rightarrow> [] | Some ds \<Rightarrow> ds);
               package_spec = dependency_spec m
           in if package_spec \<notin> set deps then
                emit INFO (''Updated snakepit.toml with '' @ package_spec)
                  (h\<lparr>snakepit_toml := Some (deps @ [package_spec])\<rparr>)
              else h))"

text \<open>
  The part of the \<open>try\<close> block of \<open>conscript_install\<close> that computes \<open>success\<close>:
  \<open>Inr success\<close>, or \<open>Inl e\<close> when an exception \<open>e\<close> leaves it.
\<close>

definition install_attempt ::
  "handler \<Rightarrow> conscript_env \<Rightarrow> string \<Rightarrow> string \<Rightarrow> (string + bool) \<times> handler" where
  "install_attempt h env package_name package_spec =
     (if dry_run h then (Inr True, emit INFO (''DRY RUN: Would install '' @ package_spec) h)
      else
        (case ce_probe env of
           ProbeRaised e \<Rightarrow> (Inl e, h)
         | p \<Rightarrow>
            (let h1 = (case p of
                         Found b \<Rightarrow> emit INFO (''Using snakepit binary: '' @ b) h
                       | _ \<Rightarrow> emit INFO ''Snakepit binary not found, using pip directly'' h)
             in case ce_install env of
                  Raised e \<Rightarrow> (Inl e, h1)
                | Exited rc err \<Rightarrow>
                    if rc = 0 then (Inr True, h1)
                    else (Inr False,
                          mutate package_name (add_error (''Installation failed: '' @ err)) h1))))"

definition conscript_install :: "handler \<Rightarrow> conscript_env \<Rightarrow> string \<Rightarrow> bool \<times> handler" where
  "conscript_install h env package_name =
     (case active_packages h package_name of
        None \<Rightarrow>
          (False, emit ERROR (''Package '' @ package_name @ '' not found for installation'') h)
      | Some pkg_meta \<Rightarrow>
          if status pkg_meta \<noteq> APPROVED then
            (False, emit ERROR (''Package '' @ package_name @ '' not approved for installation'') h)
          else
            (let h1 = emit INFO (''CONSCRIPT: Installing '' @ package_name) h;
                 h2 = mutate package_name (\<lambda>m. m\<lparr>install_time := Some (ce_time env)\<rparr>) h1
             in case install_attempt h2 env package_name (install_spec pkg_meta) of
                  (Inl e, h3) \<Rightarrow>
                    (False,
                     emit ERROR (''CONSCRIPT: Error installing '' @ package_name @ '': '' @ e)
                       (mutate package_name
                          (\<lambda>m. add_error (''Installation error: '' @ e) (set_status FAILED m)) h3))
                | (Inr success, h3) \<Rightarrow>
                    if success then
                      (let h4 = mutate package_name
                                  (\<lambda>m. add_success ''Package installed successfully''
                                          (set_status CONSCRIPTED m)) h3;
                           h5 = (case active_packages h4 package_name of
                                   None \<Rightarrow> h4
                                 | Some m \<Rightarrow> update_dependency_graph h4 (ce_toml_error env) m);
                           h6 = emit INFO (''CONSCRIPT: Successfully installed '' @ package_name) h5;
                           (_, h7) = kill_destroy h6 (ce_kill env) package_name
                       in (True, h7))
                    else
                      (False,
                       emit ERROR (''CONSCRIPT: Failed to install '' @ package_name)
                         (mutate package_name (set_status FAILED) h3))))"

subsection \<open>Queries\<close>

definition get_package_status :: "handler \<Rightarrow> string \<Rightarrow> PackageStatus option" where
  "get_package_status h package_name =
     (case active_packages h package_name of
        None \<Rightarrow> None
      | Some m \<Rightarrow> Some (status m))"


subsection \<open>Construction, and sample answers of the outside world\<close>

text \<open>
  \<open>__init__\<close>: the configuration is read, the container engine is probed once and the
  outcome is logged, and \<open>active_packages\<close> starts empty.  The history file and
  \<open>snakepit.toml\<close> are whatever earlier runs left behind.
\<close>

definition init_handler ::
  "bool \<Rightarrow> string option \<Rightarrow> history_entry list option \<Rightarrow> string list option \<Rightarrow> handler" where
  "init_handler dry engine hist toml =
     \<lparr>dry_run = dry, container_engine = engine, sandbox_dir = ''/tmp/snakepit-sandbox'',
      win32 = False, active_packages = Map.empty, history_file = hist, snakepit_toml = toml,
      logger = [case engine of
                  Some e \<Rightarrow> (INFO, ''Detected container engine: '' @ e)
                | None \<Rightarrow> (WARNING, ''No container engine detected. Falling back to venv sandbox.'')]\<rparr>"

definition ingest_ok :: ingest_env where
  "ingest_ok = \<lparr>ie_time = 100, ie_uuid = ''u-1'', ie_mkdir = None, ie_create = Exited 0 []\<rparr>"

definition ingest_build_fails :: ingest_env where
  "ingest_build_fails =
     \<lparr>ie_time = 100, ie_uuid = ''u-1'', ie_mkdir = None, ie_create = Exited 1 ''no such package''\<rparr>"

definition test_passes :: test_env where
  "test_passes = \<lparr>te_time = 130, te_run = Completed 0 ''All tests passed!'' []\<rparr>"

definition kill_ok :: kill_env where
  "kill_ok = \<lparr>ke_rmtree = Removed, ke_history_error = None, ke_history_truncated = False\<rparr>"

definition kill_rmtree_raises :: kill_env where
  "kill_rmtree_raises =
     \<lparr>ke_rmtree = RemovalRaises ''Permission denied'', ke_history_error = None,
      ke_history_truncated = False\<rparr>"

definition conscript_any :: conscript_env where
  "conscript_any =
     \<lparr>ce_time = 160, ce_probe = NotFound, ce_install = Exited 0 [], ce_toml_error = None,
      ce_kill = kill_ok\<rparr>"

text \<open>A handler on the virtual-environment backend after a successful ingest of \<open>requests\<close>.\<close>

definition venv_ingested :: handler where
  "venv_ingested = snd (ingest (init_handler False None None None) ingest_ok ''requests'' ''2.31.0'' None)"

text \<open>The same after a failed ingest (the package could not be installed).\<close>

definition venv_ingest_failed :: handler where
  "venv_ingest_failed =
     snd (ingest (init_handler False None None None) ingest_build_fails ''requests'' ''2.31.0'' None)"

subsection \<open>Auxiliary notions used in the statements\<close>

text \<open>The record that a successful \<open>kill_destroy\<close> hands to the history file.\<close>

definition destroyed :: "PackageMetadata \<Rightarrow> PackageMetadata" where
  "destroyed m = add_success ''Package sandbox destroyed'' (set_status DESTROYED m)"

text \<open>Whether the sandbox was created: \<open>mkdir\<close> did not raise and the builder reported success.\<close>

definition sandbox_created :: "ingest_env \<Rightarrow> bool" where
  "sandbox_created env =
     (ie_mkdir env = None \<and> (case ie_create env of Exited rc _ \<Rightarrow> rc = 0 | Raised _ \<Rightarrow> False))"


subsection \<open>Sequences of calls\<close>

text \<open>
  One call of a lifecycle method by a client, with what the outside world answers during
  that call.  \<open>run\<close> performs a list of calls in order; returned values are dropped, since
  the next call starts from the handler's state alone.
\<close>

datatype call =
  Ingest ingest_env string string "string option"
| TestCollaborate test_env string
| ConscriptInstall conscript_env string
| KillDestroy kill_env string

fun step :: "handler \<Rightarrow> call \<Rightarrow> handler" where
  "step h (Ingest env n v ts) = snd (ingest h env n v ts)"
| "step h (TestCollaborate env n) = snd (test_collaborate h env n)"
| "step h (ConscriptInstall env n) = snd (conscript_install h env n)"
| "step h (KillDestroy env n) = snd (kill_destroy h env n)"

definition run :: "handler \<Rightarrow> call list \<Rightarrow> handler" where
  "run h cs = foldl step h cs"

text \<open>
  A status trail passes the phases in order when every position holding \<open>APPROVED\<close> or
  \<open>CONSCRIPTED\<close> has, strictly before it, a \<open>TESTING\<close> and later a \<open>COLLABORATING\<close>.
\<close>

definition phases_in_order :: "PackageStatus list \<Rightarrow> bool" where
  "phases_in_order t \<longleftrightarrow>
     (\<forall>i < length t. t ! i \<in> {APPROVED, CONSCRIPTED} \<longrightarrow> subseq [TESTING, COLLABORATING] (take i t))"

text \<open>
  The weaker order that holds on either backend: \<open>APPROVED\<close> is assigned directly after
  \<open>COLLABORATING\<close>, and \<open>CONSCRIPTED\<close> directly after \<open>APPROVED\<close>.
\<close>

definition directly_preceded :: "PackageStatus list \<Rightarrow> bool" where
  "directly_preceded t \<longleftrightarrow>
     (\<forall>i < length t.
        (t ! i = APPROVED \<longrightarrow> 0 < i \<and> t ! (i - 1) = COLLABORATING) \<and>
        (t ! i = CONSCRIPTED \<longrightarrow> 0 < i \<and> t ! (i - 1) = APPROVED))"

text \<open>What holds of every tracked record between calls; \<open>venv\<close> says that no container engine
  was detected.\<close>

definition record_inv :: "bool \<Rightarrow> PackageMetadata \<Rightarrow> bool" where
  "record_inv venv m \<longleftrightarrow>
     trail m \<noteq> [] \<and> last (trail m) = status m \<and>
     directly_preceded (trail m) \<and>
     (TESTING \<in> set (trail m) \<longrightarrow> phases_in_order (trail m)) \<and>
     (TESTING \<in> set (trail m) \<longrightarrow> COLLABORATING \<in> set (trail m) \<longrightarrow>
        subseq [TESTING, COLLABORATING] (trail m)) \<and>
     (APPROVED \<in> set (trail m) \<longrightarrow> COLLABORATING \<in> set (trail m)) \<and>
     (CONSCRIPTED \<in> set (trail m) \<longrightarrow> APPROVED \<in> set (trail m)) \<and>
     (venv \<longrightarrow> ''python_path'' \<in> dom (validation_results m) \<or> APPROVED \<in> set (trail m) \<longrightarrow>
        TESTING \<in> set (trail m))"

definition handler_inv :: "handler \<Rightarrow> bool" where
  "handler_inv h \<longleftrightarrow>
     (\<forall>n m. active_packages h n = Some m \<longrightarrow> record_inv (container_engine h = None) m)"

subsection \<open>Sample call sequences\<close>

definition kill_history_unwritable :: kill_env where
  "kill_history_unwritable =
     \<lparr>ke_rmtree = Removed, ke_history_error = Some ''read-only file system'',
      ke_history_truncated = False\<rparr>"

definition conscript_kill_raises :: conscript_env where
  "conscript_kill_raises =
     \<lparr>ce_time = 160, ce_probe = NotFound, ce_install = Exited 0 [], ce_toml_error = None,
      ce_kill = kill_rmtree_raises\<rparr>"

text \<open>Ingest and test succeed, the installer succeeds, the sandbox directory cannot be removed.\<close>

definition full_run_calls :: "call list" where
  "full_run_calls =
     [Ingest ingest_ok ''requests'' ''2.31.0'' None,
      TestCollaborate test_passes ''requests'',
      ConscriptInstall conscript_kill_raises ''requests'']"

text \<open>The image build fails during ingest; the client calls \<open>test_collaborate\<close> all the same,
  and the container run exits with status 0.\<close>

definition test_after_failed_ingest :: "call list" where
  "test_after_failed_ingest =
     [Ingest ingest_build_fails ''requests'' ''2.31.0'' None,
      TestCollaborate test_passes ''requests'']"

text \<open>A dry-run handler holding an approved record of \<open>requests\<close>.\<close>

definition dry_approved :: handler where
  "dry_approved =
     run (init_handler True None None None)
       [Ingest ingest_ok ''requests'' ''2.31.0'' None, TestCollaborate test_passes ''requests'']"


section \<open>The validation framework (validation\_framework.py)\<close>

subsection \<open>Levels, templates and the framework object\<close>

datatype ValidationLevel = BASIC | STANDARD | COMPREHENSIVE | SECURITY | PERFORMANCE

fun level_value :: "ValidationLevel \<Rightarrow> string" where
  "level_value BASIC = ''basic''"
| "level_value STANDARD = ''standard''"
| "level_value COMPREHENSIVE = ''comprehensive''"
| "level_value SECURITY = ''security''"
| "level_value PERFORMANCE = ''performance''"

datatype py_error = KeyError string

text \<open>
  The framework object: \<open>test_templates\<close> is a dictionary from template names to program
  text, \<open>security_patterns\<close> a dictionary (in insertion order) from category names to lists
  of regular expressions, written as in the source.
\<close>

record framework =
  test_templates :: "string \<rightharpoonup> string"
  security_patterns :: "(string \<times> string list) list"

text \<open>\<open>create_custom_test\<close>: the only method that assigns to \<open>test_templates\<close> after
  construction.\<close>

definition create_custom_test :: "framework \<Rightarrow> string \<Rightarrow> string \<Rightarrow> framework" where
  "create_custom_test fw test_name test_function =
     fw\<lparr>test_templates := (test_templates fw)(test_name \<mapsto> test_function)\<rparr>"

text \<open>
  \<open>str.lower\<close> on the letters A to Z.  Strings are lists of 8-bit characters here; package
  names and the patterns below are ASCII.
\<close>

definition lower_char :: "char \<Rightarrow> char" where
  "lower_char c =
     (case map_of (zip ''ABCDEFGHIJKLMNOPQRSTUVWXYZ'' ''abcdefghijklmnopqrstuvwxyz'') c of
        None \<Rightarrow> c
      | Some d \<Rightarrow> d)"

text \<open>\<open>_detect_package_type\<close>: \<open>pattern in name_lower\<close> is the substring test.\<close>

definition detect_package_type :: "string \<Rightarrow> string" where
  "detect_package_type package_name =
     (let web_patterns = [''flask'', ''django'', ''fastapi'', ''tornado'', ''pyramid'', ''bottle''];
          data_patterns = [''pandas'', ''numpy'', ''scipy'', ''sklearn'', ''matplotlib'', ''seaborn''];
          ml_patterns = [''tensorflow'', ''torch'', ''keras'', ''xgboost'', ''lightgbm''];
          name_lower = map lower_char package_name
      in if list_ex (\<lambda>p. sublist p name_lower) web_patterns then ''web''
         else if list_ex (\<lambda>p. sublist p name_lower) data_patterns then ''data''
         else if list_ex (\<lambda>p. sublist p name_lower) ml_patterns then ''ml''
         else ''general'')"

text \<open>\<open>self.test_templates[key]\<close>: a missing key raises \<open>KeyError\<close>.\<close>

definition template :: "framework \<Rightarrow> string \<Rightarrow> py_error + string" where
  "template fw key = (case test_templates fw key of None \<Rightarrow> Inl (KeyError key) | Some t \<Rightarrow> Inr t)"

text \<open>\<open>"\\n".join(parts)\<close>.\<close>

fun join_lines :: "string list \<Rightarrow> string" where
  "join_lines [] = []"
| "join_lines [p] = p"
| "join_lines (p # q # ps) = p @ [CHR 0x0A] @ join_lines (q # ps)"

definition script_header :: "string \<Rightarrow> ValidationLevel \<Rightarrow> string list" where
  "script_header package_name validation_level =
     [''#!/usr/bin/env python3'',
      replicate 3 (CHR 0x22) @ ''Generated test script for package validation'' @ replicate 3 (CHR 0x22),
      '''',
      ''import sys'',
      ''import time'',
      ''import json'',
      ''import traceback'',
      ''from pathlib import Path'',
      '''',
      ''PACKAGE_NAME = '' @ squote @ package_name @ squote,
      ''VALIDATION_LEVEL = '' @ squote @ level_value validation_level @ squote,
      '''']"

text \<open>
  \<open>generate_test_script\<close>.  The method reads \<open>self.test_templates\<close> and its arguments,
  assigns to no attribute of \<open>self\<close>, and calls nothing but dictionary lookups and list and
  string operations; so the model is a function of the framework object and the arguments,
  and its value is the returned text, or the \<open>KeyError\<close> of a missing template.  The last
  part, \<open>main_script\<close>, is a literal of the source (an f-string in which every brace is
  doubled, so nothing is interpolated); it is long and holds pictographs, and is taken here
  as the parameter \<open>main_script\<close>.  \<open>custom_tests\<close> is \<open>None\<close> or a list.
\<close>

definition generate_test_script ::
  "string \<Rightarrow> framework \<Rightarrow> string \<Rightarrow> ValidationLevel \<Rightarrow> string list option \<Rightarrow> py_error + string" where
  "generate_test_script main_script fw package_name validation_level custom_tests =
     (let package_type = detect_package_type package_name;
          parts0 = Inr (script_header package_name validation_level);
          parts1 =
            (case parts0 of
               Inl e \<Rightarrow> Inl e
             | Inr ps \<Rightarrow>
                 if validation_level \<in> {BASIC, STANDARD} then
                   (case template fw ''basic'' of Inl e \<Rightarrow> Inl e | Inr t \<Rightarrow> Inr (ps @ [t]))
                 else Inr ps);
          parts2 =
            (case parts1 of
               Inl e \<Rightarrow> Inl e
             | Inr ps \<Rightarrow>
                 if validation_level \<in> {STANDARD, COMPREHENSIVE} then
                   (if package_type = ''web'' then
                      (case template fw ''web'' of Inl e \<Rightarrow> Inl e | Inr t \<Rightarrow> Inr (ps @ [t]))
                    else if package_type = ''data'' then
                      (case template fw ''data'' of Inl e \<Rightarrow> Inl e | Inr t \<Rightarrow> Inr (ps @ [t]))
                    else Inr ps)
                 else Inr ps);
          parts3 =
            (case parts2 of
               Inl e \<Rightarrow> Inl e
             | Inr ps \<Rightarrow>
                 if validation_level \<in> {SECURITY, COMPREHENSIVE} then
                   (case template fw ''security'' of Inl e \<Rightarrow> Inl e | Inr t \<Rightarrow> Inr (ps @ [t]))
                 else Inr ps)
      in case parts3 of
           Inl e \<Rightarrow> Inl e
         | Inr ps \<Rightarrow>
             Inr (join_lines
                    (ps @ (case custom_tests of None \<Rightarrow> [] | Some cs \<Rightarrow> cs) @ [main_script])))"

text \<open>
  The framework as \<open>__init__\<close> leaves it: the four templates of \<open>_load_test_templates\<close> (their
  texts are parameters) and the pattern table of \<open>_load_security_patterns\<close>, defined below.
\<close>

definition load_test_templates :: "string \<Rightarrow> string \<Rightarrow> string \<Rightarrow> string \<Rightarrow> string \<rightharpoonup> string" where
  "load_test_templates basic web data security =
     [''basic'' \<mapsto> basic, ''web'' \<mapsto> web, ''data'' \<mapsto> data, ''security'' \<mapsto> security]"

text \<open>Frameworks a client can reach: construction, then any number of \<open>create_custom_test\<close>
  calls.\<close>

fun customised :: "framework \<Rightarrow> (string \<times> string) list \<Rightarrow> framework" where
  "customised fw [] = fw"
| "customised fw ((test_name, test_function) # cs) =
     customised (create_custom_test fw test_name test_function) cs"

text \<open>Two framework objects with the same (shortened) templates and different pattern tables.\<close>

definition sample_fw :: framework where
  "sample_fw =
     \<lparr>test_templates = load_test_templates ''def test_basic_import'' ''def test_web_framework''
                         ''def test_data_package'' ''def test_security_aspects'',
      security_patterns = []\<rparr>"

definition sample_fw' :: framework where
  "sample_fw' = sample_fw\<lparr>security_patterns := [(''eval_patterns'', [''eval''])]\<rparr>"

subsection \<open>The generated driver and \<open>validate_package\<close>\<close>

text \<open>
  What happens inside the sandbox when the generated program runs.  The program catches
  \<open>Exception\<close> and nothing wider (in \<open>test_basic_import\<close>, around every test of
  \<open>run_validation\<close> and around the \<open>__main__\<close> block), so a piece of it can end in three
  ways: it returns, it raises an \<open>Exception\<close>, or it ends the process (\<open>SystemExit\<close> from a
  \<open>sys.exit\<close> call in the imported package, \<open>os._exit\<close>), with the exit status given.
\<close>

datatype 'a attempt = Returned 'a | Raises | Exits int

text \<open>
  \<^item> \<open>startup\<close>: the code before \<open>run_validation\<close> is called: the module level (template
    functions, custom fragments) and the first \<open>print\<close>;
  \<^item> \<open>basic_import\<close>: the call \<open>test_basic_import(PACKAGE_NAME)\<close>, returning \<open>passed\<close>; it
    raises \<open>NameError\<close> in a program generated without the basic template;
  \<^item> \<open>extended_checks\<close>: the import with the version and attribute checks;
  \<^item> \<open>timed_import\<close>: the timed import, returning \<open>import_time < 5.0\<close>;
  \<^item> \<open>report_raises\<close>: one of the \<open>print\<close> calls after \<open>run_validation\<close> raises.
\<close>

record driver_env =
  startup :: "unit attempt"
  basic_import :: "bool attempt"
  extended_checks :: "unit attempt"
  timed_import :: "bool attempt"
  report_raises :: bool

text \<open>
  The three tests of \<open>run_validation\<close>, each as the change it makes to
  \<open>(passed_tests, test_count)\<close>: a test that raises is caught and counts nothing, a test
  that ends the process gives \<open>Inl\<close> of the exit status.
\<close>

definition count_basic :: "bool attempt \<Rightarrow> int + nat \<times> nat" where
  "count_basic a =
     (case a of
        Returned passed \<Rightarrow> Inr (if passed then 1 else 0, 1)
      | Raises \<Rightarrow> Inr (0, 0)
      | Exits rc \<Rightarrow> Inl rc)"

definition count_extended :: "string \<Rightarrow> unit attempt \<Rightarrow> nat \<times> nat \<Rightarrow> int + nat \<times> nat" where
  "count_extended level a c =
     (case c of (passed_tests, test_count) \<Rightarrow>
        if level \<in> {''standard'', ''comprehensive''} then
          (case a of
             Returned _ \<Rightarrow> Inr (passed_tests + 2, test_count + 2)
           | Raises \<Rightarrow> Inr (passed_tests, test_count)
           | Exits rc \<Rightarrow> Inl rc)
        else Inr (passed_tests, test_count))"

definition count_timed :: "string \<Rightarrow> bool attempt \<Rightarrow> nat \<times> nat \<Rightarrow> int + nat \<times> nat" where
  "count_timed level a c =
     (case c of (passed_tests, test_count) \<Rightarrow>
        if level \<in> {''performance'', ''comprehensive''} then
          (case a of
             Returned fast \<Rightarrow> Inr (if fast then passed_tests + 1 else passed_tests, test_count + 1)
           | Raises \<Rightarrow> Inr (passed_tests, test_count)
           | Exits rc \<Rightarrow> Inl rc)
        else Inr (passed_tests, test_count))"

text \<open>\<open>run_validation\<close>: the pair \<open>(passed_tests, test_count)\<close> it returns, or the exit status
  with which the process ended inside it.\<close>

definition run_validation :: "string \<Rightarrow> driver_env \<Rightarrow> int + nat \<times> nat" where
  "run_validation level env =
     (case count_basic (basic_import env) of
        Inl rc \<Rightarrow> Inl rc
      | Inr c1 \<Rightarrow>
          (case count_extended level (extended_checks env) c1 of
             Inl rc \<Rightarrow> Inl rc
           | Inr c2 \<Rightarrow> count_timed level (timed_import env) c2))"

text \<open>
  \<open>results['overall_score']\<close>: 0.0 unless \<open>test_count > 0\<close>, then
  \<open>passed_tests / test_count\<close>.  The score is a rational number here.  Python divides two
  integers to the nearest double and compares with the double nearest to 0.8; rounding is
  monotone, and a quotient of counts below \<open>2^50\<close> that is not \<open>4/5\<close> differs from it by more
  than the rounding error, so the comparison of the doubles is the comparison of the
  rationals.
\<close>

definition overall_score :: "nat \<Rightarrow> nat \<Rightarrow> rat" where
  "overall_score passed_tests test_count =
     (if test_count > 0 then of_nat passed_tests / of_nat test_count else 0)"




text \<open>
  \<open>validate_package\<close>, as far as \<open>passed\<close> and \<open>score\<close> go: the subprocess finished
  (\<open>passed = (returncode == 0)\<close>, the score is parsed from the captured output by
  \<open>_extract_score_from_output\<close>, a parameter here), it timed out, or another exception was
  raised (both: \<open>passed = False\<close>, \<open>score = 0.0\<close>).
\<close>

record ValidationResult =
  passed :: bool
  score :: rat





subsection \<open>Regular expressions of the security patterns\<close>

text \<open>
  The patterns of \<open>_load_security_patterns\<close> use four constructs: a literal character, an
  escaped punctuation character (\<open>\\.\<close>, \<open>\\(\<close>), \<open>\\s+\<close> and \<open>\\s*\<close>.  \<open>parse_pattern\<close> reads a
  pattern of that form; other regular-expression syntax does not occur in the table and is
  not covered.
\<close>

datatype atom = Lit char | Spaces0 | Spaces1

fun parse_pattern :: "string \<Rightarrow> atom list" where
  "parse_pattern [] = []"
| "parse_pattern [c] = [Lit c]"
| "parse_pattern [c, d] = (if c = backslash then [Lit d] else [Lit c, Lit d])"
| "parse_pattern (c # d # q # rest) =
     (if c = backslash then
        (if d = CHR ''s'' \<and> q = CHR ''+'' then Spaces1 # parse_pattern rest
         else if d = CHR ''s'' \<and> q = CHR ''*'' then Spaces0 # parse_pattern rest
         else Lit d # parse_pattern (q # rest))
      else Lit c # parse_pattern (d # q # rest))"

text \<open>
  What \<open>\\s\<close> matches in a \<open>str\<close> pattern, among the characters below 256: tab, line feed,
  vertical tab, form feed, carriage return, the separators 28 to 31, space, NEL and the
  no-break space.
\<close>

definition is_space :: "char \<Rightarrow> bool" where
  "is_space c \<longleftrightarrow> (of_char c :: nat) \<in> {9, 10, 11, 12, 13, 28, 29, 30, 31, 32, 133, 160}"

text \<open>
  Whether the pattern matches at the start of the text, with \<open>re.IGNORECASE\<close>: letters are
  compared after lowering.  All ways of splitting the white space are tried, as the
  backtracking matcher does.
\<close>

fun match_here :: "atom list \<Rightarrow> string \<Rightarrow> bool" where
  "match_here [] s = True"
| "match_here (Lit c # p) [] = False"
| "match_here (Lit c # p) (x # xs) = (lower_char x = lower_char c \<and> match_here p xs)"
| "match_here (Spaces0 # p) [] = match_here p []"
| "match_here (Spaces0 # p) (x # xs) =
     (match_here p (x # xs) \<or> (is_space x \<and> match_here (Spaces0 # p) xs))"
| "match_here (Spaces1 # p) [] = False"
| "match_here (Spaces1 # p) (x # xs) = (is_space x \<and> match_here (Spaces0 # p) xs)"

text \<open>\<open>re.search\<close>: a match starting at some position of the text.\<close>

fun re_search :: "atom list \<Rightarrow> string \<Rightarrow> bool" where
  "re_search p [] = match_here p []"
| "re_search p (x # xs) = (match_here p (x # xs) \<or> re_search p xs)"

subsection \<open>The security scan\<close>

definition load_security_patterns :: "(string \<times> string list) list" where
  "load_security_patterns =
     [(''dangerous_imports'',
       [''import'' @ backslash # ''s+os'' @ backslash # ''.system'',
        ''import'' @ backslash # ''s+subprocess'' @ backslash # ''.'',
        ''from'' @ backslash # ''s+subprocess'' @ backslash # ''s+import'',
        ''import'' @ backslash # ''s+eval'',
        ''import'' @ backslash # ''s+exec'',
        ''__import__'' @ backslash # ''s*'' @ backslash # ''('']),
      (''network_access'',
       [''import'' @ backslash # ''s+urllib'',
        ''import'' @ backslash # ''s+requests'',
        ''import'' @ backslash # ''s+socket'',
        ''import'' @ backslash # ''s+http'' @ backslash # ''.'',
        ''from'' @ backslash # ''s+urllib'']),
      (''file_system'',
       [''open'' @ backslash # ''s*'' @ backslash # ''('',
        ''file'' @ backslash # ''s*'' @ backslash # ''('',
        ''import'' @ backslash # ''s+shutil'',
        ''os'' @ backslash # ''.remove'',
        ''os'' @ backslash # ''.unlink'',
        ''pathlib'' @ backslash # ''.'']),
      (''eval_patterns'',
       [''eval'' @ backslash # ''s*'' @ backslash # ''('',
        ''exec'' @ backslash # ''s*'' @ backslash # ''('',
        ''compile'' @ backslash # ''s*'' @ backslash # ''('',
        ''__import__'' @ backslash # ''s*'' @ backslash # ''(''])]"

text \<open>The string \<open>f"{category}: {pattern} found in {file_path.name}"\<close>.\<close>

definition finding :: "string \<Rightarrow> string \<Rightarrow> string \<Rightarrow> string" where
  "finding category pattern file_name = category @ '': '' @ pattern @ '' found in '' @ file_name"

text \<open>The two inner loops of \<open>_security_scan\<close> for one file that was read.\<close>

definition scan_content :: "(string \<times> string list) list \<Rightarrow> string \<Rightarrow> string \<Rightarrow> string list" where
  "scan_content patterns file_name content =
     concat (map (\<lambda>(category, pats).
                    map (\<lambda>pattern. finding category pattern file_name)
                      (filter (\<lambda>pattern. re_search (parse_pattern pattern) content) pats))
                 patterns)"

text \<open>\<open>file_path.name\<close>: the last component of a path.\<close>

definition path_name :: "string \<Rightarrow> string" where
  "path_name file_path = rev (takeWhile (\<lambda>c. c \<noteq> CHR ''/'') (rev file_path))"

text \<open>
  \<open>_security_scan\<close> over the files that \<open>rglob("*.py")\<close> found, each given by its path and
  its content, or the text of the exception when opening or reading it raised.  The result
  is the list of issues and the list of logged warnings.  An issue names the file by the
  last component of its path, a warning by the whole path.
\<close>

fun security_scan ::
  "framework \<Rightarrow> (string \<times> (string + string)) list \<Rightarrow> string list \<times> string list" where
  "security_scan fw [] = ([], [])"
| "security_scan fw ((file_path, Inr content) # files) =
     (let (issues, warnings) = security_scan fw files
      in (scan_content (security_patterns fw) (path_name file_path) content @ issues, warnings))"
| "security_scan fw ((file_path, Inl e) # files) =
     (let (issues, warnings) = security_scan fw files
      in (issues, (''Could not scan '' @ file_path @ '': '' @ e) # warnings))"

text \<open>The issues reported under a category: those whose text starts with its name.\<close>

definition under_category :: "string \<Rightarrow> string list \<Rightarrow> string list" where
  "under_category category issues = filter (prefix (category @ '': '')) issues"

text \<open>The content matches none of the patterns of the table.\<close>

definition matches_nothing :: "(string \<times> string list) list \<Rightarrow> string \<Rightarrow> bool" where
  "matches_nothing patterns content \<longleftrightarrow>
     list_all (\<lambda>(category, pats).
                 list_all (\<lambda>pattern. \<not> re_search (parse_pattern pattern) content) pats)
              patterns"

definition default_framework :: "(string \<rightharpoonup> string) \<Rightarrow> framework" where
  "default_framework templates =
     \<lparr>test_templates = templates, security_patterns = load_security_patterns\<rparr>"

text \<open>A small source tree: one file that cannot be opened, one that calls \<open>eval\<close> twice, one
  that matches no pattern.\<close>

definition scan_tree :: "(string \<times> (string + string)) list" where
  "scan_tree =
     [(''pkg/setup.py'', Inl ''Permission denied''),
      (''pkg/core/util.py'', Inr ''x = eval(y); z = eval (w)''),
      (''pkg/ok.py'', Inr ''print(1)'')]"


section \<open>Objects and references: what \<open>list_packages\<close> returns\<close>

text \<open>
  \<open>list_packages\<close> returns \<open>self.active_packages.copy()\<close>: a new dictionary object holding
  the same keys and the same references to the \<open>PackageMetadata\<close> objects.  To say what a
  client can and cannot change through the returned object, dictionaries and records are
  placed in a store and named by references.  \<open>next_ref\<close> is the next unused reference.
\<close>

record pyheap =
  dict_objs :: "nat \<rightharpoonup> (string \<rightharpoonup> nat)"
  meta_objs :: "nat \<rightharpoonup> PackageMetadata"
  next_ref :: nat

text \<open>\<open>dict.copy()\<close> of the dictionary at \<open>self_active\<close>, allocated at a new reference.\<close>

definition list_packages :: "pyheap \<Rightarrow> nat \<Rightarrow> nat \<times> pyheap" where
  "list_packages hp self_active =
     (let d = next_ref hp
      in (d, hp\<lparr>dict_objs := (dict_objs hp)(d := dict_objs hp self_active), next_ref := Suc d\<rparr>))"

text \<open>
  What a client does to a dictionary it holds: \<open>d[k] = r\<close>, \<open>del d[k]\<close> (a \<open>KeyError\<close> when
  the key is missing leaves the dictionary as it is) and \<open>d.clear()\<close>.
\<close>

datatype dict_op = SetItem string nat | DelItem string | Clear

fun dict_apply :: "nat \<Rightarrow> pyheap \<Rightarrow> dict_op \<Rightarrow> pyheap" where
  "dict_apply d hp (SetItem k r) =
     (case dict_objs hp d of
        None \<Rightarrow> hp
      | Some m \<Rightarrow> hp\<lparr>dict_objs := (dict_objs hp)(d \<mapsto> m(k \<mapsto> r))\<rparr>)"
| "dict_apply d hp (DelItem k) =
     (case dict_objs hp d of
        None \<Rightarrow> hp
      | Some m \<Rightarrow> hp\<lparr>dict_objs := (dict_objs hp)(d \<mapsto> m(k := None))\<rparr>)"
| "dict_apply d hp Clear =
     (case dict_objs hp d of
        None \<Rightarrow> hp
      | Some m \<Rightarrow> hp\<lparr>dict_objs := (dict_objs hp)(d \<mapsto> Map.empty)\<rparr>)"

text \<open>
  The active-package map that the handler's methods see: the dictionary at \<open>self_active\<close>
  with every reference followed to its record.  \<open>handler_of\<close> is the handler of the first
  part with that map in place.
\<close>

definition active_view :: "pyheap \<Rightarrow> nat \<Rightarrow> string \<rightharpoonup> PackageMetadata" where
  "active_view hp self_active =
     (\<lambda>k. case dict_objs hp self_active of
             None \<Rightarrow> None
           | Some m \<Rightarrow> (case m k of None \<Rightarrow> None | Some r \<Rightarrow> meta_objs hp r))"

definition handler_of :: "handler \<Rightarrow> pyheap \<Rightarrow> nat \<Rightarrow> handler" where
  "handler_of base hp self_active = base\<lparr>active_packages := active_view hp self_active\<rparr>"

text \<open>A store with the handler's dictionary at reference 0, tracking one record at
  reference 1.\<close>

definition sample_heap :: pyheap where
  "sample_heap =
     \<lparr>dict_objs = [0 \<mapsto> [''requests'' \<mapsto> 1]],
      meta_objs = [1 \<mapsto> new_metadata ingest_ok ''requests'' ''2.31.0'' None],
      next_ref = 2\<rparr>"


section \<open>Properties of the handler\<close>

subsection \<open>What each helper leaves alone\<close>

lemma emit_fields [simp]:
  "active_packages (emit lv msg h) = active_packages h"
  "history_file (emit lv msg h) = history_file h"
  "snakepit_toml (emit lv msg h) = snakepit_toml h"
  "dry_run (emit lv msg h) = dry_run h"
  "container_engine (emit lv msg h) = container_engine h"
  "sandbox_dir (emit lv msg h) = sandbox_dir h"
  "win32 (emit lv msg h) = win32 h"
  "logger (emit lv msg h) = logger h @ [(lv, msg)]"
  by (simp_all add: emit_def)

lemma mutate_fields [simp]:
  "history_file (mutate n f h) = history_file h"
  "snakepit_toml (mutate n f h) = snakepit_toml h"
  "dry_run (mutate n f h) = dry_run h"
  "container_engine (mutate n f h) = container_engine h"
  "sandbox_dir (mutate n f h) = sandbox_dir h"
  "win32 (mutate n f h) = win32 h"
  "logger (mutate n f h) = logger h"
  by (simp_all add: mutate_def split: option.splits)

lemma mutate_active:
  "active_packages (mutate n f h) =
     (case active_packages h n of
        None \<Rightarrow> active_packages h
      | Some m \<Rightarrow> (active_packages h)(n \<mapsto> f m))"
  by (simp add: mutate_def split: option.splits)

lemma save_history_fields [simp]:
  "active_packages (save_package_history h err tr m) = active_packages h"
  "snakepit_toml (save_package_history h err tr m) = snakepit_toml h"
  "dry_run (save_package_history h err tr m) = dry_run h"
  "container_engine (save_package_history h err tr m) = container_engine h"
  by (simp_all add: save_package_history_def Let_def split: option.splits)

lemma save_history_file:
  "history_file (save_package_history h err tr m) =
     (case err of
        Some e \<Rightarrow> (if tr then None else history_file h)
      | None \<Rightarrow>
          Some (keep_last_1000 ((case history_file h of None \<Rightarrow> [] | Some es \<Rightarrow> es) @ [entry_of m])))"
  by (simp add: save_package_history_def Let_def split: option.splits)

lemma keep_last_1000_last:
  "xs \<noteq> [] \<Longrightarrow> keep_last_1000 xs \<noteq> [] \<and> last (keep_last_1000 xs) = last xs"
  by (auto simp: keep_last_1000_def)

lemma update_graph_fields [simp]:
  "active_packages (update_dependency_graph h err m) = active_packages h"
  "history_file (update_dependency_graph h err m) = history_file h"
  "dry_run (update_dependency_graph h err m) = dry_run h"
  "container_engine (update_dependency_graph h err m) = container_engine h"
  by (simp_all add: update_dependency_graph_def Let_def split: option.splits)

subsection \<open>kill\_destroy\<close>

lemma kill_destroy_true_iff:
  "fst (kill_destroy h env n) \<longleftrightarrow>
     active_packages h n \<noteq> None \<and> ke_rmtree env \<in> {NoSandboxDir, Removed}"
  by (auto simp: kill_destroy_def Let_def split: option.splits rm_outcome.splits)

lemma kill_destroy_true_state:
  assumes "fst (kill_destroy h env n)"
  shows "active_packages (snd (kill_destroy h env n)) = (active_packages h)(n := None)"
    and "history_file (snd (kill_destroy h env n)) =
      (case ke_history_error env of
         Some e \<Rightarrow> (if ke_history_truncated env then None else history_file h)
       | None \<Rightarrow>
           Some (keep_last_1000 ((case history_file h of None \<Rightarrow> [] | Some es \<Rightarrow> es) @
                   [entry_of (destroyed (the (active_packages h n)))])))"
  using assms
  by (auto simp: kill_destroy_def Let_def save_history_file destroyed_def
           split: option.splits rm_outcome.splits)

lemma kill_destroy_false_state:
  assumes "\<not> fst (kill_destroy h env n)"
  shows "active_packages (snd (kill_destroy h env n)) = active_packages h"
    and "history_file (snd (kill_destroy h env n)) = history_file h"
  using assms
  by (auto simp: kill_destroy_def Let_def split: option.splits rm_outcome.splits)

lemma kill_destroy_config [simp]:
  "container_engine (snd (kill_destroy h env n)) = container_engine h"
  "dry_run (snd (kill_destroy h env n)) = dry_run h"
  by (auto simp: kill_destroy_def Let_def split: option.splits rm_outcome.splits)

subsection \<open>ingest\<close>

lemma ingest_state:
  "active_packages (snd (ingest h env n v ts)) = (active_packages h)(n \<mapsto> fst (ingest h env n v ts))"
  "history_file (snd (ingest h env n v ts)) = history_file h"
  "container_engine (snd (ingest h env n v ts)) = container_engine h"
  "dry_run (snd (ingest h env n v ts)) = dry_run h"
  by (simp_all add: ingest_def Let_def mutate_active split: prod.splits option.splits)

lemma ingest_object:
  "fst (ingest h env n v ts) = snd (ingest_body h env (new_metadata env n v ts))"
  by (simp add: ingest_def Let_def ingest_body_def split: prod.splits option.splits)

lemma ingest_body_status:
  "status (snd (ingest_body h env m)) = (if sandbox_created env then TESTING else FAILED)"
  by (auto simp: ingest_body_def sandbox_created_def Let_def create_container_sandbox_def
        create_venv_sandbox_def set_status_def add_error_def add_success_def
      split: option.splits prod.splits proc_outcome.splits if_splits)

lemma ingest_body_name:
  "name (snd (ingest_body h env m)) = name m"
  by (auto simp: ingest_body_def Let_def create_container_sandbox_def
        create_venv_sandbox_def set_status_def add_error_def add_success_def
      split: option.splits prod.splits proc_outcome.splits if_splits)

lemma venv_ingested_active:
  "active_packages venv_ingested ''requests'' = Some (fst (ingest (init_handler False None None None) ingest_ok ''requests'' ''2.31.0'' None))"
  by (simp add: venv_ingested_def ingest_state)

subsection \<open>Destroying twice\<close>



subsection \<open>A failed kill\_destroy changes nothing it tracks\<close>

text \<open>
  Claim C9.  For a name with an active record: when \<open>kill_destroy\<close> returns \<open>False\<close>, the
  removal of the sandbox directory raised, the active set is what it was (the record is
  still there, with the status it had), and the history file is what it was.  The record is
  gone from the active set exactly when the call returns \<open>True\<close>.
\<close>

theorem kill_destroy_failure_atomic:
  assumes "active_packages h n = Some m"
  shows "(\<not> fst (kill_destroy h env n) \<longrightarrow>
            (\<exists>e. ke_rmtree env = RemovalRaises e) \<and>
            active_packages (snd (kill_destroy h env n)) = active_packages h \<and>
            active_packages (snd (kill_destroy h env n)) n = Some m \<and>
            history_file (snd (kill_destroy h env n)) = history_file h) \<and>
         (fst (kill_destroy h env n) \<longleftrightarrow> active_packages (snd (kill_destroy h env n)) n = None)"
proof (cases "fst (kill_destroy h env n)")
  case True
  then show ?thesis
    by (simp add: kill_destroy_true_state)
next
  case False
  moreover from False assms have "\<exists>e. ke_rmtree env = RemovalRaises e"
    by (cases "ke_rmtree env") (simp_all add: kill_destroy_true_iff)
  ultimately show ?thesis
    using assms by (simp add: kill_destroy_false_state)
qed

theorem kill_destroy_failure_atomic_witness:
  "active_packages venv_ingested ''requests'' \<noteq> None \<and>
   \<not> fst (kill_destroy venv_ingested kill_rmtree_raises ''requests'') \<and>
   ke_rmtree kill_rmtree_raises = RemovalRaises ''Permission denied'' \<and>
   active_packages (snd (kill_destroy venv_ingested kill_rmtree_raises ''requests'')) =
     active_packages venv_ingested \<and>
   get_package_status (snd (kill_destroy venv_ingested kill_rmtree_raises ''requests'')) ''requests'' =
     Some TESTING \<and>
   history_file (snd (kill_destroy venv_ingested kill_rmtree_raises ''requests'')) = None"
proof -
  have nf: "\<not> fst (kill_destroy venv_ingested kill_rmtree_raises ''requests'')"
    by (simp add: kill_destroy_true_iff kill_rmtree_raises_def)
  have st: "status (fst (ingest (init_handler False None None None) ingest_ok ''requests'' ''2.31.0'' None)) = TESTING"
    by (simp add: ingest_object ingest_body_status sandbox_created_def ingest_ok_def)
  have hist: "history_file venv_ingested = None"
    by (simp add: venv_ingested_def ingest_state init_handler_def)
  have rm: "ke_rmtree kill_rmtree_raises = RemovalRaises ''Permission denied''"
    by (simp add: kill_rmtree_raises_def)
  note inst = kill_destroy_failure_atomic [OF venv_ingested_active, of kill_rmtree_raises]
  from inst nf have a: "active_packages (snd (kill_destroy venv_ingested kill_rmtree_raises ''requests'')) =
     active_packages venv_ingested"
    by blast
  from inst nf have h: "history_file (snd (kill_destroy venv_ingested kill_rmtree_raises ''requests'')) =
     history_file venv_ingested"
    by blast
  have g: "get_package_status (snd (kill_destroy venv_ingested kill_rmtree_raises ''requests'')) ''requests'' =
     Some TESTING"
    unfolding get_package_status_def a venv_ingested_active using st by simp
  have ne: "active_packages venv_ingested ''requests'' \<noteq> None"
    unfolding venv_ingested_active by simp
  from ne nf rm a g h hist show ?thesis
    by (simp only: simp_thms)
qed

subsection \<open>An ingested record is active, whether or not its sandbox was created\<close>

text \<open>
  Claim C8.  After \<open>ingest(name, ...)\<close> has returned the object \<open>m\<close>, \<open>active_packages\<close> holds
  \<open>m\<close> under that name.  Its status is \<open>TESTING\<close> when the sandbox was created and \<open>FAILED\<close>
  otherwise; in the second case \<open>get_package_status(name)\<close> returns \<open>FAILED\<close>, not \<open>None\<close>.
  A following \<open>kill_destroy(name)\<close> whose directory removal does not raise returns \<open>True\<close>,
  removes the record from the active set and, when the history file can be written, leaves
  the record as the last history entry, with status \<open>destroyed\<close>.
\<close>

theorem ingest_leaves_record_active:
  assumes "ingest h env n v ts = (m, h')"
  shows "active_packages h' n = Some m \<and>
         get_package_status h' n = Some (status m) \<and>
         status m = (if sandbox_created env then TESTING else FAILED) \<and>
         (\<not> sandbox_created env \<longrightarrow> get_package_status h' n = Some FAILED) \<and>
         (ke_rmtree kenv \<in> {NoSandboxDir, Removed} \<longrightarrow>
            fst (kill_destroy h' kenv n) \<and>
            active_packages (snd (kill_destroy h' kenv n)) n = None \<and>
            (ke_history_error kenv = None \<longrightarrow>
               (\<exists>es. history_file (snd (kill_destroy h' kenv n)) = Some es \<and> es \<noteq> [] \<and>
                     last es = entry_of (destroyed m) \<and>
                     h_name (last es) = n \<and> h_status (last es) = ''destroyed'')))"
proof -
  from assms have m: "m = fst (ingest h env n v ts)" and h': "h' = snd (ingest h env n v ts)"
    by simp_all
  have act: "active_packages h' n = Some m"
    by (simp add: m h' ingest_state)
  have st: "status m = (if sandbox_created env then TESTING else FAILED)"
    by (simp add: m ingest_object ingest_body_status)
  have nm: "name m = n"
    by (simp add: m ingest_object ingest_body_name new_metadata_def)
  have kill: "fst (kill_destroy h' kenv n) \<and>
            active_packages (snd (kill_destroy h' kenv n)) n = None \<and>
            (ke_history_error kenv = None \<longrightarrow>
               (\<exists>es. history_file (snd (kill_destroy h' kenv n)) = Some es \<and> es \<noteq> [] \<and>
                     last es = entry_of (destroyed m) \<and>
                     h_name (last es) = n \<and> h_status (last es) = ''destroyed''))"
    if ok: "ke_rmtree kenv \<in> {NoSandboxDir, Removed}"
  proof -
    from ok act have t: "fst (kill_destroy h' kenv n)"
      by (simp add: kill_destroy_true_iff)
    have e: "h_name (entry_of (destroyed m)) = n \<and> h_status (entry_of (destroyed m)) = ''destroyed''"
      by (simp add: entry_of_def destroyed_def add_success_def set_status_def nm)
    from t act e show ?thesis
      by (simp add: kill_destroy_true_state keep_last_1000_last)
  qed
  from act st kill show ?thesis
    by (simp add: get_package_status_def)
qed

theorem ingest_leaves_record_active_witness:
  "\<not> sandbox_created ingest_build_fails \<and>
   get_package_status venv_ingest_failed ''requests'' = Some FAILED \<and>
   ke_rmtree kill_ok = Removed \<and> ke_history_error kill_ok = None \<and>
   fst (kill_destroy venv_ingest_failed kill_ok ''requests'') \<and>
   active_packages (snd (kill_destroy venv_ingest_failed kill_ok ''requests'')) ''requests'' = None \<and>
   (\<exists>es. history_file (snd (kill_destroy venv_ingest_failed kill_ok ''requests'')) = Some es \<and>
         h_name (last es) = ''requests'' \<and> h_status (last es) = ''destroyed'')"
proof -
  have eq: "ingest (init_handler False None None None) ingest_build_fails ''requests'' ''2.31.0'' None =
      (fst (ingest (init_handler False None None None) ingest_build_fails ''requests'' ''2.31.0'' None),
       venv_ingest_failed)"
    by (simp add: venv_ingest_failed_def)
  have ns: "\<not> sandbox_created ingest_build_fails"
    by (simp add: sandbox_created_def ingest_build_fails_def)
  have k: "ke_rmtree kill_ok = Removed \<and> ke_history_error kill_ok = None"
    by (simp add: kill_ok_def)
  from ingest_leaves_record_active [OF eq, of kill_ok] ns k show ?thesis
    by auto
qed

subsection \<open>The order of status assignments\<close>

lemma phases_in_order_snoc:
  "phases_in_order (t @ [s]) \<longleftrightarrow>
     phases_in_order t \<and> (s \<in> {APPROVED, CONSCRIPTED} \<longrightarrow> subseq [TESTING, COLLABORATING] t)"
proof -
  have "phases_in_order (t @ [s]) \<longleftrightarrow>
      (\<forall>i < Suc (length t). (t @ [s]) ! i \<in> {APPROVED, CONSCRIPTED} \<longrightarrow>
          subseq [TESTING, COLLABORATING] (take i (t @ [s])))"
    by (simp add: phases_in_order_def)
  also have "\<dots> \<longleftrightarrow>
      (\<forall>i < length t. (t @ [s]) ! i \<in> {APPROVED, CONSCRIPTED} \<longrightarrow>
          subseq [TESTING, COLLABORATING] (take i (t @ [s]))) \<and>
      ((t @ [s]) ! length t \<in> {APPROVED, CONSCRIPTED} \<longrightarrow>
          subseq [TESTING, COLLABORATING] (take (length t) (t @ [s])))"
    by (auto simp: less_Suc_eq)
  also have "\<dots> \<longleftrightarrow>
      phases_in_order t \<and> (s \<in> {APPROVED, CONSCRIPTED} \<longrightarrow> subseq [TESTING, COLLABORATING] t)"
    by (simp add: phases_in_order_def nth_append)
  finally show ?thesis .
qed

lemma directly_preceded_snoc:
  "directly_preceded (t @ [s]) \<longleftrightarrow>
     directly_preceded t \<and>
     (s = APPROVED \<longrightarrow> t \<noteq> [] \<and> last t = COLLABORATING) \<and>
     (s = CONSCRIPTED \<longrightarrow> t \<noteq> [] \<and> last t = APPROVED)"
proof -
  have a: "(t @ [s]) ! (i - 1) = t ! (i - 1)" if "i < length t" for i
  proof -
    from that have "i - 1 < length t" by arith
    then show ?thesis by (simp add: nth_append)
  qed
  have b: "(t @ [s]) ! (length t - 1) = last t" if "t \<noteq> []"
    using that by (simp add: nth_append last_conv_nth)
  have "directly_preceded (t @ [s]) \<longleftrightarrow>
      (\<forall>i < length t.
        ((t @ [s]) ! i = APPROVED \<longrightarrow> 0 < i \<and> (t @ [s]) ! (i - 1) = COLLABORATING) \<and>
        ((t @ [s]) ! i = CONSCRIPTED \<longrightarrow> 0 < i \<and> (t @ [s]) ! (i - 1) = APPROVED)) \<and>
      (((t @ [s]) ! length t = APPROVED \<longrightarrow>
           0 < length t \<and> (t @ [s]) ! (length t - 1) = COLLABORATING) \<and>
       ((t @ [s]) ! length t = CONSCRIPTED \<longrightarrow>
           0 < length t \<and> (t @ [s]) ! (length t - 1) = APPROVED))"
    unfolding directly_preceded_def length_append_singleton by (auto simp: less_Suc_eq)
  also have "\<dots> \<longleftrightarrow>
     directly_preceded t \<and>
     (s = APPROVED \<longrightarrow> t \<noteq> [] \<and> last t = COLLABORATING) \<and>
     (s = CONSCRIPTED \<longrightarrow> t \<noteq> [] \<and> last t = APPROVED)"
    unfolding directly_preceded_def using a b by (auto simp: nth_append)
  finally show ?thesis .
qed

lemma subseq_pair_snoc:
  "a \<in> set t \<Longrightarrow> subseq [a, b] (t @ [b])"
proof -
  assume "a \<in> set t"
  then have "subseq [a] t" by (simp add: subseq_singleton_left)
  then have "subseq ([a] @ [b]) (t @ [b])"
    by (intro list_emb_append_mono) simp_all
  then show ?thesis by simp
qed

lemma subseq_pair_append:
  "subseq [a, b] t \<Longrightarrow> subseq [a, b] (t @ u)"
  by (rule list_emb_prefix)

lemma record_inv_frame:
  assumes "record_inv v m" and "trail m' = trail m" and "status m' = status m"
    and "''python_path'' \<in> dom (validation_results m') \<longrightarrow>
         ''python_path'' \<in> dom (validation_results m)"
  shows "record_inv v m'"
  using assms unfolding record_inv_def by simp

lemma record_inv_add_error: "record_inv v m \<Longrightarrow> record_inv v (add_error e m)"
  by (erule record_inv_frame) (simp_all add: add_error_def)

lemma record_inv_add_success: "record_inv v m \<Longrightarrow> record_inv v (add_success e m)"
  by (erule record_inv_frame) (simp_all add: add_success_def)

lemma record_inv_record_run: "record_inv v m \<Longrightarrow> record_inv v (record_run rc out err m)"
  by (erule record_inv_frame) (simp_all add: record_run_def)

lemma record_inv_install_time: "record_inv v m \<Longrightarrow> record_inv v (m\<lparr>install_time := x\<rparr>)"
  by (erule record_inv_frame) simp_all

lemma record_inv_test_time: "record_inv v m \<Longrightarrow> record_inv v (m\<lparr>test_time := x\<rparr>)"
  by (erule record_inv_frame) simp_all

lemma record_inv_set_plain:
  assumes "record_inv v m" and "s = COLLABORATING \<or> s = FAILED \<or> s = DESTROYED"
  shows "record_inv v (set_status s m)"
  using assms unfolding record_inv_def set_status_def
  by (auto simp: phases_in_order_snoc directly_preceded_snoc
           intro: subseq_pair_snoc subseq_pair_append)

lemma record_inv_set_approved:
  assumes "record_inv v m" and "status m = COLLABORATING"
    and "v \<longrightarrow> ''python_path'' \<in> dom (validation_results m)"
  shows "record_inv v (set_status APPROVED m)"
proof -
  from assms(1,2) have c: "COLLABORATING \<in> set (trail m)"
    unfolding record_inv_def by (metis last_in_set)
  with assms show ?thesis
    unfolding record_inv_def set_status_def
    by (auto simp: phases_in_order_snoc directly_preceded_snoc intro: subseq_pair_append)
qed

lemma record_inv_set_conscripted:
  assumes "record_inv v m" and "status m = APPROVED"
  shows "record_inv v (set_status CONSCRIPTED m)"
proof -
  from assms have a: "APPROVED \<in> set (trail m)"
    unfolding record_inv_def by (metis last_in_set)
  with assms show ?thesis
    unfolding record_inv_def set_status_def
    by (auto simp: phases_in_order_snoc directly_preceded_snoc intro: subseq_pair_append)
qed

lemma phases_in_order_fresh:
  "phases_in_order [INGESTING]"
  "phases_in_order [INGESTING, TESTING]"
  "phases_in_order [INGESTING, FAILED]"
  using phases_in_order_snoc [of "[INGESTING]" TESTING] phases_in_order_snoc [of "[INGESTING]" FAILED]
  by (simp_all add: phases_in_order_def)

lemma directly_preceded_fresh:
  "directly_preceded [INGESTING]"
  "directly_preceded [INGESTING, TESTING]"
  "directly_preceded [INGESTING, FAILED]"
  using directly_preceded_snoc [of "[INGESTING]" TESTING] directly_preceded_snoc [of "[INGESTING]" FAILED]
  by (simp_all add: directly_preceded_def)

lemma record_inv_ingest_body:
  "record_inv (container_engine h = None) (snd (ingest_body h env (new_metadata env n v ts)))"
  by (auto simp: ingest_body_def new_metadata_def Let_def create_container_sandbox_def
        create_venv_sandbox_def set_status_def add_error_def add_success_def record_inv_def
        phases_in_order_fresh directly_preceded_fresh
      split: option.splits prod.splits proc_outcome.splits if_splits)

lemma test_in_venv_success:
  "fst (test_in_venv r m) \<Longrightarrow> ''python_path'' \<in> dom (validation_results m)"
  by (auto simp: test_in_venv_def split: option.splits run_outcome.splits if_splits)

lemma record_inv_test_in_container:
  "record_inv v m \<Longrightarrow> record_inv v (snd (test_in_container r m))"
  by (auto simp: test_in_container_def record_inv_add_error record_inv_add_success
        record_inv_record_run split: run_outcome.splits)

lemma record_inv_test_in_venv:
  "record_inv v m \<Longrightarrow> record_inv v (snd (test_in_venv r m))"
  by (auto simp: test_in_venv_def record_inv_add_error record_inv_add_success
        record_inv_record_run split: run_outcome.splits option.splits)

lemma test_runner_status:
  "status (snd (test_in_container r m)) = status m"
  "status (snd (test_in_venv r m)) = status m"
  by (auto simp: test_in_container_def test_in_venv_def add_error_def add_success_def
        record_run_def split: run_outcome.splits option.splits)

lemma test_in_venv_keeps_path:
  "''python_path'' \<in> dom (validation_results m) \<Longrightarrow>
   ''python_path'' \<in> dom (validation_results (snd (test_in_venv r m)))"
  by (auto simp: test_in_venv_def add_error_def add_success_def
        record_run_def split: run_outcome.splits option.splits)

lemma record_inv_test_body:
  assumes "record_inv (container_engine h = None) m"
  shows "record_inv (container_engine h = None) (snd (test_body h env m))"
proof -
  let ?m1 = "(set_status COLLABORATING m)\<lparr>test_time := Some (te_time env)\<rparr>"
  have m1: "record_inv (container_engine h = None) ?m1"
    by (intro record_inv_test_time record_inv_set_plain assms) simp
  have s1: "status ?m1 = COLLABORATING"
    by (simp add: set_status_def)
  show ?thesis
  proof (cases "container_engine h = None")
    case True
    let ?r = "test_in_venv (te_run env) ?m1"
    have inv: "record_inv True (snd ?r)"
      using m1 True by (simp add: record_inv_test_in_venv)
    have st: "status (snd ?r) = COLLABORATING"
      by (simp only: test_runner_status s1)
    have "record_inv True (set_status APPROVED (snd ?r))" if "fst ?r"
    proof -
      from that have "''python_path'' \<in> dom (validation_results ?m1)"
        by (rule test_in_venv_success)
      then have "''python_path'' \<in> dom (validation_results (snd ?r))"
        by (rule test_in_venv_keeps_path)
      with inv st show ?thesis
        by (intro record_inv_set_approved) simp_all
    qed
    moreover have "record_inv True (set_status FAILED (snd ?r))"
      using inv by (intro record_inv_set_plain) simp_all
    ultimately show ?thesis
      using True by (simp add: test_body_def Let_def split_beta record_inv_add_success)
  next
    case False
    let ?v = "container_engine h = None"
    let ?r = "test_in_container (te_run env) ?m1"
    have inv: "record_inv ?v (snd ?r)"
      using m1 by (rule record_inv_test_in_container)
    have st: "status (snd ?r) = COLLABORATING"
      by (simp only: test_runner_status s1)
    have "record_inv ?v (set_status APPROVED (snd ?r))"
      by (rule record_inv_set_approved [OF inv st]) (simp add: False)
    then have ok: "record_inv ?v (add_success ''Package validation successful'' (set_status APPROVED (snd ?r)))"
      by (rule record_inv_add_success)
    have bad: "record_inv ?v (set_status FAILED (snd ?r))"
      by (rule record_inv_set_plain [OF inv]) simp
    have "test_body h env m =
        (if fst ?r then (True, add_success ''Package validation successful'' (set_status APPROVED (snd ?r)))
         else (False, set_status FAILED (snd ?r)))"
      using False by (simp add: test_body_def Let_def split_beta)
    with ok bad show ?thesis
      by (cases "fst ?r") simp_all
  qed
qed

lemma handler_inv_cong:
  "active_packages h' = active_packages h \<Longrightarrow> container_engine h' = container_engine h \<Longrightarrow>
   handler_inv h' = handler_inv h"
  by (simp add: handler_inv_def)

lemma mutate_lookup:
  "active_packages (mutate n f h) k =
     (if k = n then map_option f (active_packages h n) else active_packages h k)"
  by (simp add: mutate_def split: option.splits)

lemma handler_inv_mutate:
  assumes "handler_inv h"
    and "\<And>m. active_packages h n = Some m \<Longrightarrow> record_inv (container_engine h = None) m \<Longrightarrow>
           record_inv (container_engine h = None) (f m)"
  shows "handler_inv (mutate n f h)"
  using assms unfolding handler_inv_def
  by (auto simp: mutate_lookup split: if_splits)

lemma handler_inv_emit [simp]: "handler_inv (emit lv msg h) = handler_inv h"
  by (rule handler_inv_cong) simp_all

lemma handler_inv_save [simp]: "handler_inv (save_package_history h err tr m) = handler_inv h"
  by (rule handler_inv_cong) simp_all

lemma handler_inv_graph [simp]: "handler_inv (update_dependency_graph h err m) = handler_inv h"
  by (rule handler_inv_cong) simp_all

lemma handler_inv_ingest:
  assumes "handler_inv h"
  shows "handler_inv (snd (ingest h env n v ts))"
  using assms record_inv_ingest_body [of h env n v ts]
  unfolding handler_inv_def
  by (auto simp: ingest_state ingest_object)

lemma test_body_emit [simp]: "test_body (emit lv msg h) = test_body h"
  by (rule ext)+ (simp add: test_body_def)

lemma test_collaborate_state:
  "active_packages (snd (test_collaborate h env n)) =
     (case active_packages h n of
        None \<Rightarrow> active_packages h
      | Some m \<Rightarrow> (active_packages h)(n \<mapsto> snd (test_body h env m)))"
  "container_engine (snd (test_collaborate h env n)) = container_engine h"
  "dry_run (snd (test_collaborate h env n)) = dry_run h"
  "history_file (snd (test_collaborate h env n)) = history_file h"
  by (auto simp: test_collaborate_def Let_def mutate_active split: option.splits prod.splits)

lemma handler_inv_test:
  assumes "handler_inv h"
  shows "handler_inv (snd (test_collaborate h env n))"
  using assms record_inv_test_body [of h _ env]
  unfolding handler_inv_def
  by (auto simp: test_collaborate_state split: option.splits if_splits)

lemma handler_inv_kill:
  assumes "handler_inv h"
  shows "handler_inv (snd (kill_destroy h env n))"
proof (cases "fst (kill_destroy h env n)")
  case True
  with assms show ?thesis
    unfolding handler_inv_def by (auto simp: kill_destroy_true_state split: if_splits)
next
  case False
  with assms show ?thesis
    unfolding handler_inv_def by (simp add: kill_destroy_false_state)
qed

lemma install_attempt_state:
  "container_engine (snd (install_attempt h env n spec)) = container_engine h"
  "dry_run (snd (install_attempt h env n spec)) = dry_run h"
  "history_file (snd (install_attempt h env n spec)) = history_file h"
  by (auto simp: install_attempt_def Let_def
      split: probe_outcome.splits proc_outcome.splits)

lemma install_attempt_record:
  assumes "active_packages h n = Some m"
  shows "\<exists>m'. active_packages (snd (install_attempt h env n spec)) n = Some m' \<and>
              status m' = status m \<and> trail m' = trail m \<and>
              validation_results m' = validation_results m"
  using assms
  by (auto simp: install_attempt_def Let_def mutate_lookup add_error_def
      split: probe_outcome.splits proc_outcome.splits)

lemma handler_inv_install_attempt:
  assumes "handler_inv h"
  shows "handler_inv (snd (install_attempt h env n spec))"
  using assms
  by (auto simp: install_attempt_def Let_def
      intro!: handler_inv_mutate record_inv_add_error
      split: probe_outcome.splits proc_outcome.splits)

lemma handler_inv_conscript:
  assumes "handler_inv h"
  shows "handler_inv (snd (conscript_install h env n))"
proof (cases "active_packages h n")
  case None
  with assms show ?thesis
    by (simp add: conscript_install_def)
next
  case (Some m)
  show ?thesis
  proof (cases "status m = APPROVED")
    case False
    with Some assms show ?thesis
      by (simp add: conscript_install_def)
  next
    case True
    let ?h2 = "mutate n (\<lambda>m. m\<lparr>install_time := Some (ce_time env)\<rparr>)
                 (emit INFO (''CONSCRIPT: Installing '' @ n) h)"
    obtain x h3 where r: "install_attempt ?h2 env n (install_spec m) = (x, h3)"
      by (cases "install_attempt ?h2 env n (install_spec m)") blast
    let ?h4 = "mutate n (\<lambda>m. add_success ''Package installed successfully''
                             (set_status CONSCRIPTED m)) h3"
    let ?h5 = "(case active_packages ?h4 n of
                  None \<Rightarrow> ?h4
                | Some m \<Rightarrow> update_dependency_graph ?h4 (ce_toml_error env) m)"
    have inv2: "handler_inv ?h2"
      using assms by (intro handler_inv_mutate record_inv_install_time) simp_all
    have act2: "\<exists>m2. active_packages ?h2 n = Some m2 \<and> status m2 = APPROVED"
      using Some True by (simp add: mutate_lookup)
    have inv3: "handler_inv h3"
      using handler_inv_install_attempt [OF inv2, of env n "install_spec m"] r by simp
    have act3: "\<exists>m3. active_packages h3 n = Some m3 \<and> status m3 = APPROVED"
    proof -
      from act2 obtain m2 where m2: "active_packages ?h2 n = Some m2" "status m2 = APPROVED"
        by blast
      from install_attempt_record [OF m2(1), of env "install_spec m"] r m2(2)
      show ?thesis by auto
    qed
    show ?thesis
    proof (cases x)
      case (Inl e)
      have "handler_inv (mutate n (\<lambda>m. add_error (''Installation error: '' @ e) (set_status FAILED m)) h3)"
        using inv3 by (intro handler_inv_mutate record_inv_add_error record_inv_set_plain) simp_all
      moreover have "snd (conscript_install h env n) =
          emit ERROR (''CONSCRIPT: Error installing '' @ n @ '': '' @ e)
            (mutate n (\<lambda>m. add_error (''Installation error: '' @ e) (set_status FAILED m)) h3)"
        using Some True r Inl by (simp add: conscript_install_def Let_def)
      ultimately show ?thesis by simp
    next
      case (Inr success)
      show ?thesis
      proof (cases success)
        case False
        have "handler_inv (mutate n (set_status FAILED) h3)"
          using inv3 by (intro handler_inv_mutate record_inv_set_plain) simp_all
        moreover have "snd (conscript_install h env n) =
            emit ERROR (''CONSCRIPT: Failed to install '' @ n) (mutate n (set_status FAILED) h3)"
          using Some True r Inr False by (simp add: conscript_install_def Let_def)
        ultimately show ?thesis by simp
      next
        case success: True
        have inv4: "handler_inv ?h4"
          using inv3 act3
          by (intro handler_inv_mutate record_inv_add_success record_inv_set_conscripted) auto
        have inv5: "handler_inv ?h5"
          using inv4 by (simp split: option.splits)
        have "handler_inv (snd (kill_destroy
            (emit INFO (''CONSCRIPT: Successfully installed '' @ n) ?h5) (ce_kill env) n))"
          using inv5 by (intro handler_inv_kill) simp
        moreover have "snd (conscript_install h env n) =
            snd (kill_destroy (emit INFO (''CONSCRIPT: Successfully installed '' @ n) ?h5)
                   (ce_kill env) n)"
          using Some True r Inr success by (simp add: conscript_install_def Let_def split_beta)
        ultimately show ?thesis by simp
      qed
    qed
  qed
qed

lemma step_config:
  "container_engine (step h c) = container_engine h"
proof (cases c)
  case (ConscriptInstall env n)
  have "container_engine (snd (conscript_install h env n)) = container_engine h"
    by (auto simp: conscript_install_def Let_def install_attempt_state split_beta
          split: option.splits sum.splits prod.splits)
  with ConscriptInstall show ?thesis by simp
qed (simp_all add: ingest_state test_collaborate_state)

lemma run_config: "container_engine (run h cs) = container_engine h"
  unfolding run_def by (induction cs arbitrary: h) (simp_all add: step_config)

lemma handler_inv_step: "handler_inv h \<Longrightarrow> handler_inv (step h c)"
  by (cases c) (simp_all add: handler_inv_ingest handler_inv_test handler_inv_conscript handler_inv_kill)

lemma handler_inv_run: "handler_inv h \<Longrightarrow> handler_inv (run h cs)"
  unfolding run_def by (induction cs arbitrary: h) (simp_all add: handler_inv_step)

lemma phases_in_order_trivial:
  "APPROVED \<notin> set t \<Longrightarrow> CONSCRIPTED \<notin> set t \<Longrightarrow> phases_in_order t"
  unfolding phases_in_order_def by (metis insertE nth_mem singletonD)

lemma record_inv_phases:
  assumes "record_inv v m" and "v \<or> TESTING \<in> set (trail m)"
  shows "phases_in_order (trail m)"
proof (cases "APPROVED \<in> set (trail m)")
  case True
  with assms show ?thesis unfolding record_inv_def by blast
next
  case False
  with assms have "CONSCRIPTED \<notin> set (trail m)" unfolding record_inv_def by blast
  with False show ?thesis by (rule phases_in_order_trivial)
qed

text \<open>
  Claim C4, as amended.  Take any sequence of \<open>ingest\<close>, \<open>test_collaborate\<close>,
  \<open>conscript_install\<close> and \<open>kill_destroy\<close> calls on a handler that starts with no active
  package, with any answers of the outside world, and any record active afterwards.  The trail of the record ends in its
  current status.  On either backend \<open>APPROVED\<close> was assigned directly after
  \<open>COLLABORATING\<close>, and \<open>CONSCRIPTED\<close> directly after \<open>APPROVED\<close>.  If no container engine
  was detected (the virtual-environment backend), or if the record's ingest reached
  \<open>TESTING\<close>, then every \<open>APPROVED\<close> and every \<open>CONSCRIPTED\<close> in the trail comes after a
  \<open>TESTING\<close> followed by a \<open>COLLABORATING\<close>.  (A record leaves the active set only through
  \<open>kill_destroy\<close>, which assigns \<open>DESTROYED\<close> and nothing else.)
\<close>

theorem phases_in_order_on_venv_or_after_testing:
  assumes "active_packages h0 = Map.empty"
    and "active_packages (run h0 calls) n = Some m"
  shows "last (trail m) = status m \<and>
         directly_preceded (trail m) \<and>
         (container_engine h0 = None \<or> TESTING \<in> set (trail m) \<longrightarrow> phases_in_order (trail m))"
proof -
  from assms(1) have "handler_inv h0"
    by (simp add: handler_inv_def)
  then have "handler_inv (run h0 calls)"
    by (rule handler_inv_run)
  with assms(2) have "record_inv (container_engine (run h0 calls) = None) m"
    unfolding handler_inv_def by blast
  then have inv: "record_inv (container_engine h0 = None) m"
    by (simp only: run_config)
  then have "last (trail m) = status m" and "directly_preceded (trail m)"
    unfolding record_inv_def by blast+
  moreover have "phases_in_order (trail m)"
    if "container_engine h0 = None \<or> TESTING \<in> set (trail m)"
    using inv that by (rule record_inv_phases)
  ultimately show ?thesis by blast
qed

lemma full_run_record:
  "\<exists>m. active_packages (run (init_handler False None None None) full_run_calls) ''requests'' = Some m \<and>
       trail m = [INGESTING, TESTING, COLLABORATING, APPROVED, CONSCRIPTED]"
  by (simp add: run_def full_run_calls_def init_handler_def ingest_ok_def test_passes_def
     conscript_kill_raises_def kill_rmtree_raises_def
     ingest_def ingest_body_def new_metadata_def create_venv_sandbox_def create_container_sandbox_def
     test_collaborate_def test_body_def test_in_venv_def test_in_container_def record_run_def
     conscript_install_def install_attempt_def kill_destroy_def update_dependency_graph_def
     mutate_def emit_def set_status_def add_error_def add_success_def Let_def
     python_path_of_def path_join_def install_spec_def dependency_spec_def)

theorem phases_in_order_on_venv_or_after_testing_witness:
  "\<exists>m. active_packages (run (init_handler False None None None) full_run_calls) ''requests'' = Some m \<and>
       trail m = [INGESTING, TESTING, COLLABORATING, APPROVED, CONSCRIPTED] \<and>
       status m = CONSCRIPTED \<and>
       directly_preceded (trail m) \<and> phases_in_order (trail m)"
proof -
  from full_run_record obtain m where
    m: "active_packages (run (init_handler False None None None) full_run_calls) ''requests'' = Some m"
    and t: "trail m = [INGESTING, TESTING, COLLABORATING, APPROVED, CONSCRIPTED]"
    by blast
  have e: "active_packages (init_handler False None None None) = Map.empty"
    and c: "container_engine (init_handler False None None None) = None"
    by (simp_all add: init_handler_def)
  from phases_in_order_on_venv_or_after_testing [OF e m] t c
  have "status m = CONSCRIPTED" and "directly_preceded (trail m)" and "phases_in_order (trail m)"
    by simp_all
  with m t show ?thesis by blast
qed

text \<open>
  Claim C4 as stated fails on the container backend: \<open>test_collaborate\<close> looks only for the
  name in \<open>active_packages\<close>, not at the status.  After an ingest whose image build failed
  (status \<open>FAILED\<close>, \<open>TESTING\<close> never assigned) a call of \<open>test_collaborate\<close> whose container
  run exits with 0 sets \<open>APPROVED\<close>.
\<close>

theorem approved_without_testing_counterexample:
  "\<exists>m. active_packages
          (run (init_handler False (Some ''docker'') None None) test_after_failed_ingest)
          ''requests'' = Some m \<and>
       status m = APPROVED \<and>
       trail m = [INGESTING, FAILED, COLLABORATING, APPROVED] \<and>
       TESTING \<notin> set (trail m) \<and>
       \<not> phases_in_order (trail m)"
proof -
  have "\<exists>m. active_packages
          (run (init_handler False (Some ''docker'') None None) test_after_failed_ingest)
          ''requests'' = Some m \<and>
       status m = APPROVED \<and> trail m = [INGESTING, FAILED, COLLABORATING, APPROVED]"
    by (simp add: run_def test_after_failed_ingest_def init_handler_def ingest_build_fails_def
       test_passes_def ingest_def ingest_body_def new_metadata_def create_venv_sandbox_def
       create_container_sandbox_def test_collaborate_def test_body_def test_in_venv_def
       test_in_container_def record_run_def mutate_def emit_def set_status_def add_error_def
       add_success_def Let_def python_path_of_def path_join_def)
  moreover have "\<not> phases_in_order [INGESTING, FAILED, COLLABORATING, APPROVED]"
    using phases_in_order_snoc [of "[INGESTING, FAILED, COLLABORATING]" APPROVED] by simp
  ultimately show ?thesis by auto
qed

subsection \<open>kill\_destroy archives unless the removal raises\<close>

lemma kill_destroy_logger_raises:
  assumes "active_packages h n = Some m" and "ke_rmtree env = RemovalRaises e"
  shows "logger (snd (kill_destroy h env n)) =
           logger h @ [(INFO, ''KILL/DESTROY: Cleaning up '' @ n),
                       (ERROR, ''KILL/DESTROY: Error cleaning up '' @ n @ '': '' @ e)]"
  using assms by (simp add: kill_destroy_def Let_def)

lemma kill_destroy_logger_warning:
  assumes "active_packages h n = Some m" and "ke_rmtree env \<in> {NoSandboxDir, Removed}"
    and "ke_history_error env = Some e"
  shows "(WARNING, ''Could not save package history: '' @ e)
           \<in> set (logger (snd (kill_destroy h env n)))"
  using assms
  by (auto simp: kill_destroy_def Let_def save_package_history_def split: rm_outcome.splits)

text \<open>
  Claim C2, as amended.  For a record \<open>m\<close> active under a name: when the removal of the
  sandbox directory does not raise, \<open>kill_destroy\<close> returns \<open>True\<close>, the record is removed
  from the active set and, if the history file can be read and written, the record with
  status \<open>DESTROYED\<close> is its last entry (if not, a warning is logged, and the history file
  stays as it was unless the write itself failed part-way).  When
  the removal raises, the error is logged, \<open>False\<close> is returned, and neither the active set
  nor the history file changes.
\<close>

theorem kill_destroy_archives_unless_removal_raises:
  assumes "active_packages h n = Some m"
  shows "(ke_rmtree env \<in> {NoSandboxDir, Removed} \<longrightarrow>
            fst (kill_destroy h env n) \<and>
            active_packages (snd (kill_destroy h env n)) = (active_packages h)(n := None) \<and>
            (ke_history_error env = None \<longrightarrow>
               (\<exists>es. history_file (snd (kill_destroy h env n)) = Some es \<and> es \<noteq> [] \<and>
                     last es = entry_of (destroyed m) \<and> h_status (last es) = ''destroyed'')) \<and>
            (\<forall>e. ke_history_error env = Some e \<longrightarrow>
               (WARNING, ''Could not save package history: '' @ e)
                 \<in> set (logger (snd (kill_destroy h env n))) \<and>
               (\<not> ke_history_truncated env \<longrightarrow>
                  history_file (snd (kill_destroy h env n)) = history_file h))) \<and>
         (\<forall>e. ke_rmtree env = RemovalRaises e \<longrightarrow>
            \<not> fst (kill_destroy h env n) \<and>
            active_packages (snd (kill_destroy h env n)) = active_packages h \<and>
            history_file (snd (kill_destroy h env n)) = history_file h \<and>
            last (logger (snd (kill_destroy h env n))) =
              (ERROR, ''KILL/DESTROY: Error cleaning up '' @ n @ '': '' @ e))"
proof -
  have ok: "fst (kill_destroy h env n) \<and>
            active_packages (snd (kill_destroy h env n)) = (active_packages h)(n := None) \<and>
            (ke_history_error env = None \<longrightarrow>
               (\<exists>es. history_file (snd (kill_destroy h env n)) = Some es \<and> es \<noteq> [] \<and>
                     last es = entry_of (destroyed m) \<and> h_status (last es) = ''destroyed'')) \<and>
            (\<forall>e. ke_history_error env = Some e \<longrightarrow>
               (WARNING, ''Could not save package history: '' @ e)
                 \<in> set (logger (snd (kill_destroy h env n))) \<and>
               (\<not> ke_history_truncated env \<longrightarrow>
                  history_file (snd (kill_destroy h env n)) = history_file h))"
    if rm: "ke_rmtree env \<in> {NoSandboxDir, Removed}"
  proof -
    from rm assms have t: "fst (kill_destroy h env n)"
      by (simp add: kill_destroy_true_iff)
    have e: "h_status (entry_of (destroyed m)) = ''destroyed''"
      by (simp add: entry_of_def destroyed_def add_success_def set_status_def)
    from t assms e kill_destroy_logger_warning [OF assms rm] show ?thesis
      by (auto simp: kill_destroy_true_state keep_last_1000_last)
  qed
  have bad: "\<not> fst (kill_destroy h env n) \<and>
            active_packages (snd (kill_destroy h env n)) = active_packages h \<and>
            history_file (snd (kill_destroy h env n)) = history_file h \<and>
            last (logger (snd (kill_destroy h env n))) =
              (ERROR, ''KILL/DESTROY: Error cleaning up '' @ n @ '': '' @ e)"
    if rm: "ke_rmtree env = RemovalRaises e" for e
  proof -
    from rm have f: "\<not> fst (kill_destroy h env n)"
      by (simp add: kill_destroy_true_iff)
    with kill_destroy_logger_raises [OF assms rm] show ?thesis
      by (simp add: kill_destroy_false_state)
  qed
  from ok bad show ?thesis by blast
qed

theorem kill_destroy_archives_unless_removal_raises_witness:
  "active_packages venv_ingest_failed ''requests'' \<noteq> None \<and>
   ke_rmtree kill_ok = Removed \<and> ke_history_error kill_ok = None \<and>
   fst (kill_destroy venv_ingest_failed kill_ok ''requests'') \<and>
   active_packages (snd (kill_destroy venv_ingest_failed kill_ok ''requests'')) ''requests'' = None \<and>
   (\<exists>es. history_file (snd (kill_destroy venv_ingest_failed kill_ok ''requests'')) = Some es \<and>
         h_status (last es) = ''destroyed'') \<and>
   ke_rmtree kill_rmtree_raises = RemovalRaises ''Permission denied'' \<and>
   \<not> fst (kill_destroy venv_ingest_failed kill_rmtree_raises ''requests'') \<and>
   active_packages (snd (kill_destroy venv_ingest_failed kill_rmtree_raises ''requests'')) ''requests'' \<noteq> None"
proof -
  have act: "active_packages venv_ingest_failed ''requests'' =
      Some (fst (ingest (init_handler False None None None) ingest_build_fails ''requests'' ''2.31.0'' None))"
    by (simp add: venv_ingest_failed_def ingest_state)
  have k: "ke_rmtree kill_ok = Removed" "ke_history_error kill_ok = None"
    "ke_rmtree kill_rmtree_raises = RemovalRaises ''Permission denied''"
    by (simp_all add: kill_ok_def kill_rmtree_raises_def)
  note a = kill_destroy_archives_unless_removal_raises [OF act, of kill_ok]
  note b = kill_destroy_archives_unless_removal_raises [OF act, of kill_rmtree_raises]
  from a k have a1: "fst (kill_destroy venv_ingest_failed kill_ok ''requests'')"
    and a2: "active_packages (snd (kill_destroy venv_ingest_failed kill_ok ''requests'')) ''requests'' = None"
    and a3: "\<exists>es. history_file (snd (kill_destroy venv_ingest_failed kill_ok ''requests'')) = Some es \<and>
         h_status (last es) = ''destroyed''"
    by auto
  from b k have b1: "\<not> fst (kill_destroy venv_ingest_failed kill_rmtree_raises ''requests'')"
    and b2: "active_packages (snd (kill_destroy venv_ingest_failed kill_rmtree_raises ''requests'')) =
       active_packages venv_ingest_failed"
    by auto
  from act have ne: "active_packages venv_ingest_failed ''requests'' \<noteq> None"
    by simp
  from ne k a1 a2 a3 b1 show ?thesis
    unfolding b2 by (simp only: simp_thms)
qed

text \<open>
  Claim C2 as stated fails: with a record active and \<open>rmtree\<close> raising, \<open>kill_destroy\<close> neither
  archives the record nor removes it.
\<close>

theorem kill_destroy_always_archives_counterexample:
  "\<not> (\<forall>h env n m. active_packages h n = Some m \<longrightarrow>
         active_packages (snd (kill_destroy h env n)) n = None \<and>
         (\<exists>es. history_file (snd (kill_destroy h env n)) = Some es \<and>
               h_status (last es) = ''destroyed''))"
proof
  assume all: "\<forall>h env n m. active_packages h n = Some m \<longrightarrow>
         active_packages (snd (kill_destroy h env n)) n = None \<and>
         (\<exists>es. history_file (snd (kill_destroy h env n)) = Some es \<and>
               h_status (last es) = ''destroyed'')"
  have act: "active_packages venv_ingested ''requests'' =
      Some (fst (ingest (init_handler False None None None) ingest_ok ''requests'' ''2.31.0'' None))"
    by (simp add: venv_ingested_def ingest_state)
  with all have gone:
    "active_packages (snd (kill_destroy venv_ingested kill_rmtree_raises ''requests'')) ''requests'' = None"
    by blast
  have "\<not> fst (kill_destroy venv_ingested kill_rmtree_raises ''requests'')"
    by (simp add: kill_destroy_true_iff kill_rmtree_raises_def)
  then have "active_packages (snd (kill_destroy venv_ingested kill_rmtree_raises ''requests'')) =
      active_packages venv_ingested"
    by (rule kill_destroy_false_state)
  with gone act show False by simp
qed

subsection \<open>What a successful conscript\_install leaves in the history file\<close>

text \<open>
  Claim C1, evaluated.  A dry-run handler holds an approved record of \<open>requests\<close>;
  \<open>conscript_install\<close> succeeds, the sandbox directory is removed and the history file is
  written.  The call returns \<open>True\<close> and the record leaves the active set, but the one
  history entry carries the status value \<open>destroyed\<close>, not \<open>conscripted\<close>: \<open>kill_destroy\<close>
  assigns \<open>DESTROYED\<close> before it saves the record.
\<close>

theorem conscript_install_history_says_destroyed:
  "get_package_status dry_approved ''requests'' = Some APPROVED \<and>
   fst (conscript_install dry_approved conscript_any ''requests'') \<and>
   active_packages (snd (conscript_install dry_approved conscript_any ''requests'')) ''requests'' = None \<and>
   map_option (map h_status)
     (history_file (snd (conscript_install dry_approved conscript_any ''requests''))) =
     Some [''destroyed''] \<and>
   status_value CONSCRIPTED \<noteq> ''destroyed''"
  by (simp add: dry_approved_def run_def init_handler_def ingest_ok_def test_passes_def
     conscript_any_def kill_ok_def get_package_status_def
     ingest_def ingest_body_def new_metadata_def create_venv_sandbox_def create_container_sandbox_def
     test_collaborate_def test_body_def test_in_venv_def test_in_container_def record_run_def
     conscript_install_def install_attempt_def kill_destroy_def update_dependency_graph_def
     save_package_history_def keep_last_1000_def entry_of_def
     mutate_def emit_def set_status_def add_error_def add_success_def Let_def
     python_path_of_def path_join_def install_spec_def dependency_spec_def)


section \<open>Properties of the validation framework\<close>

subsection \<open>Test-script generation\<close>

lemma customised_keeps_templates:
  "k \<in> dom (test_templates fw) \<Longrightarrow> k \<in> dom (test_templates (customised fw cs))"
  by (induction fw cs rule: customised.induct) (auto simp: create_custom_test_def)

lemma generate_total:
  assumes "{''basic'', ''web'', ''data'', ''security''} \<subseteq> dom (test_templates fw)"
  shows "\<exists>text. generate_test_script ms fw n lv ct = Inr text"
proof -
  from assms obtain b w d s where
    "test_templates fw ''basic'' = Some b" "test_templates fw ''web'' = Some w"
    "test_templates fw ''data'' = Some d" "test_templates fw ''security'' = Some s"
    by (auto simp: dom_def)
  then show ?thesis
    by (simp add: generate_test_script_def template_def Let_def)
qed

text \<open>
  The generated text depends on the framework object through \<open>test_templates\<close> alone, and
  for every framework reachable by construction and \<open>create_custom_test\<close> calls it is a
  text, not a \<open>KeyError\<close>.  That two calls with the same arguments agree, and that nothing
  outside the object is read or written, is how the method was translated (a function of
  the object and the arguments, as the source reads nothing else); no theorem about the
  translation adds to that.
\<close>

lemma generate_test_script_templates_only:
  assumes "test_templates fw1 = test_templates fw2"
  shows "generate_test_script ms fw1 n lv ct = generate_test_script ms fw2 n lv ct \<and>
         (\<forall>b w d s cs. test_templates fw1 = test_templates
              (customised \<lparr>test_templates = load_test_templates b w d s, security_patterns = sp\<rparr> cs) \<longrightarrow>
            (\<exists>text. generate_test_script ms fw1 n lv ct = Inr text \<and>
                    generate_test_script ms fw2 n lv ct = Inr text))"
proof -
  have "template fw1 = template fw2"
    using assms by (simp add: template_def fun_eq_iff)
  then have eq: "generate_test_script ms fw1 n lv ct = generate_test_script ms fw2 n lv ct"
    by (simp only: generate_test_script_def)
  have "\<exists>text. generate_test_script ms fw1 n lv ct = Inr text"
    if t: "test_templates fw1 = test_templates
              (customised \<lparr>test_templates = load_test_templates b w d s, security_patterns = sp\<rparr> cs)"
    for b w d s cs
  proof -
    let ?fw0 = "\<lparr>test_templates = load_test_templates b w d s, security_patterns = sp\<rparr>"
    have "{''basic'', ''web'', ''data'', ''security''} \<subseteq> dom (test_templates ?fw0)"
      by (simp add: load_test_templates_def)
    then have "{''basic'', ''web'', ''data'', ''security''} \<subseteq> dom (test_templates (customised ?fw0 cs))"
      using customised_keeps_templates [of _ ?fw0 cs] by blast
    with t have "{''basic'', ''web'', ''data'', ''security''} \<subseteq> dom (test_templates fw1)"
      by simp
    then show ?thesis by (rule generate_total)
  qed
  with eq show ?thesis by metis
qed

lemma generate_test_script_example:
  "test_templates sample_fw = test_templates sample_fw' \<and>
   sample_fw \<noteq> sample_fw' \<and>
   generate_test_script ''run_validation()'' sample_fw ''Flask'' STANDARD (Some [''def extra(): pass'']) =
   generate_test_script ''run_validation()'' sample_fw' ''Flask'' STANDARD (Some [''def extra(): pass'']) \<and>
   generate_test_script ''run_validation()'' sample_fw' ''Flask'' STANDARD (Some [''def extra(): pass'']) =
     Inr (join_lines (script_header ''Flask'' STANDARD @
            [''def test_basic_import'', ''def test_web_framework'', ''def extra(): pass'',
             ''run_validation()'']))"
proof -
  have t: "test_templates sample_fw = test_templates sample_fw'"
    by (simp add: sample_fw'_def)
  have ne: "sample_fw \<noteq> sample_fw'"
    by (simp add: sample_fw'_def sample_fw_def framework.equality)
  have w: "detect_package_type ''Flask'' = ''web''"
    by (simp add: detect_package_type_def lower_char_def sublist_Cons_right prefix_def)
  have v: "generate_test_script ''run_validation()'' sample_fw ''Flask'' STANDARD (Some [''def extra(): pass'']) =
     Inr (join_lines (script_header ''Flask'' STANDARD @
            [''def test_basic_import'', ''def test_web_framework'', ''def extra(): pass'',
             ''run_validation()'']))"
    by (simp add: generate_test_script_def w template_def sample_fw_def load_test_templates_def)
  from generate_test_script_templates_only [OF t, of "''run_validation()''" "''Flask''" STANDARD
      "Some [''def extra(): pass'']"] t ne v
  show ?thesis by simp
qed

subsection \<open>The pass threshold\<close>



lemma run_validation_bound:
  assumes "run_validation level env = Inr (p, t)"
  shows "p \<le> t \<and> t \<le> 4"
  using assms
  by (auto simp: run_validation_def count_basic_def count_extended_def count_timed_def
      split: attempt.splits sum.splits if_splits)




text \<open>
  For the program that \<open>generate_test_script\<close> writes, the counters come from at most four
  tests, so the threshold is met only when every counted test passed and at least one was
  counted.
\<close>

lemma generated_driver_all_or_nothing:
  assumes "p \<le> t" and "t \<le> 4"
  shows "overall_score p t \<ge> 8 / 10 \<longleftrightarrow> p = t \<and> 0 < t"
proof (cases "t = 0")
  case True
  then show ?thesis by (simp add: overall_score_def)
next
  case False
  then have pos: "0 < t" by simp
  have "overall_score p t \<ge> 8 / 10 \<longleftrightarrow> 8 * rat_of_nat t \<le> 10 * rat_of_nat p"
    using pos by (simp add: overall_score_def field_simps)
  also have "\<dots> \<longleftrightarrow> 8 * t \<le> 10 * p"
    by (metis of_nat_le_iff of_nat_mult of_nat_numeral)
  also have "\<dots> \<longleftrightarrow> p = t"
    using assms pos by arith
  finally show ?thesis using pos by simp
qed

subsection \<open>The security scan\<close>

lemma re_search_here: "match_here p s \<Longrightarrow> re_search p s"
  by (cases s) simp_all

lemma re_search_append: "match_here p s \<Longrightarrow> re_search p (pre @ s)"
  by (induction pre) (simp_all add: re_search_here)

lemma eval_pattern_parsed:
  "parse_pattern (''eval'' @ backslash # ''s*'' @ backslash # ''('') =
     [Lit CHR ''e'', Lit CHR ''v'', Lit CHR ''a'', Lit CHR ''l'', Spaces0, Lit CHR ''('']"
  by (simp add: backslash_def)

lemma eval_call_matches:
  assumes "sublist ''eval('' content"
  shows "re_search (parse_pattern (''eval'' @ backslash # ''s*'' @ backslash # ''('')) content"
proof -
  from assms obtain pre post where "content = pre @ ''eval('' @ post"
    by (auto simp: sublist_def)
  moreover have "match_here [Lit CHR ''e'', Lit CHR ''v'', Lit CHR ''a'', Lit CHR ''l'', Spaces0,
      Lit CHR ''(''] (''eval('' @ post)"
    by (simp add: lower_char_def)
  ultimately show ?thesis
    by (simp only: eval_pattern_parsed re_search_append)
qed

lemma count_list_map_filter:
  "count_list (map f (filter P xs)) y = length (filter (\<lambda>x. P x \<and> f x = y) xs)"
  by (induction xs) simp_all

lemma count_list_append: "count_list (xs @ ys) y = count_list xs y + count_list ys y"
  by (induction xs) simp_all

lemma finding_eq_iff:
  "finding c p n = finding c' p' n \<longleftrightarrow> c @ '': '' @ p = c' @ '': '' @ p'"
proof -
  have "finding c p n = (c @ '': '' @ p) @ ('' found in '' @ n)" for c p
    by (simp add: finding_def)
  then show ?thesis by (simp only: append_same_eq)
qed

lemma eval_finding_once:
  assumes "sublist ''eval('' content"
  shows "count_list (scan_content load_security_patterns file_name content)
           (finding ''eval_patterns'' (''eval'' @ backslash # ''s*'' @ backslash # ''('') file_name) = 1"
  using eval_call_matches [OF assms]
  by (simp add: scan_content_def load_security_patterns_def count_list_append
        count_list_map_filter finding_eq_iff backslash_def)

lemma under_category_map_same:
  "under_category c (map (\<lambda>p. finding c p n) ps) = map (\<lambda>p. finding c p n) ps"
  by (induction ps) (simp_all add: under_category_def finding_def)

lemma under_category_append:
  "under_category c (xs @ ys) = under_category c xs @ under_category c ys"
  by (simp add: under_category_def)

lemma under_eval_other:
  "under_category ''eval_patterns'' (map (\<lambda>p. finding ''dangerous_imports'' p n) ps) = []"
  "under_category ''eval_patterns'' (map (\<lambda>p. finding ''network_access'' p n) ps) = []"
  "under_category ''eval_patterns'' (map (\<lambda>p. finding ''file_system'' p n) ps) = []"
  by (induction ps) (simp_all add: under_category_def finding_def)

lemma eval_findings:
  "under_category ''eval_patterns'' (scan_content load_security_patterns file_name content) =
     map (\<lambda>p. finding ''eval_patterns'' p file_name)
       (filter (\<lambda>p. re_search (parse_pattern p) content)
          [''eval'' @ backslash # ''s*'' @ backslash # ''('',
           ''exec'' @ backslash # ''s*'' @ backslash # ''('',
           ''compile'' @ backslash # ''s*'' @ backslash # ''('',
           ''__import__'' @ backslash # ''s*'' @ backslash # ''(''])"
  unfolding scan_content_def load_security_patterns_def
  by (simp only: list.map concat.simps prod.case under_category_append under_eval_other
        under_category_map_same append_Nil append_Nil2)

lemma matches_nothing_no_findings:
  "matches_nothing patterns content \<Longrightarrow> scan_content patterns file_name content = []"
  unfolding matches_nothing_def scan_content_def
  by (induction patterns) (auto simp: list_all_iff filter_empty_conv)

lemma security_scan_append:
  "fst (security_scan fw (before @ files)) =
     fst (security_scan fw before) @ fst (security_scan fw files)"
  "snd (security_scan fw (before @ files)) =
     snd (security_scan fw before) @ snd (security_scan fw files)"
  by (induction fw before rule: security_scan.induct) (simp_all add: split_beta)

text \<open>
  Claim C6, as amended.  Take the pattern table of the framework and a file that the scan
  opened and read.  Its contribution to the list of issues is \<open>scan_content\<close> of its name
  (the last component of its path) and content, between the contributions of the files
  before and after it.  If the content
  contains \<open>eval(\<close>, the issue \<open>eval_patterns: eval\\s*\\( found in <name>\<close> is in that
  contribution exactly once, however often \<open>eval(\<close> occurs; the contribution holds one issue
  of the \<open>eval_patterns\<close> category for each of the four patterns of that category that
  matches, so between one and four.  If the content matches none of the patterns of the four
  categories, the contribution is empty.
\<close>

theorem security_scan_eval_reported_once_per_pattern:
  assumes "security_patterns fw = load_security_patterns"
  shows "fst (security_scan fw (before @ (file_path, Inr content) # after)) =
           fst (security_scan fw before) @
           scan_content load_security_patterns (path_name file_path) content @
           fst (security_scan fw after) \<and>
         (sublist ''eval('' content \<longrightarrow>
            count_list (scan_content load_security_patterns (path_name file_path) content)
              (finding ''eval_patterns'' (''eval'' @ backslash # ''s*'' @ backslash # ''('') (path_name file_path)) = 1 \<and>
            1 \<le> length (under_category ''eval_patterns''
                          (scan_content load_security_patterns (path_name file_path) content)) \<and>
            length (under_category ''eval_patterns''
                      (scan_content load_security_patterns (path_name file_path) content)) \<le> 4) \<and>
         (matches_nothing load_security_patterns content \<longrightarrow>
            scan_content load_security_patterns (path_name file_path) content = [])"
proof -
  have split: "fst (security_scan fw (before @ (file_path, Inr content) # after)) =
           fst (security_scan fw before) @
           scan_content load_security_patterns (path_name file_path) content @
           fst (security_scan fw after)"
    by (simp add: security_scan_append assms split_beta)
  have upper: "length (under_category ''eval_patterns''
                      (scan_content load_security_patterns (path_name file_path) content)) \<le> 4"
    unfolding eval_findings length_map
    by (rule order_trans [OF length_filter_le]) simp
  have lower: "1 \<le> length (under_category ''eval_patterns''
                      (scan_content load_security_patterns (path_name file_path) content))"
    if "sublist ''eval('' content"
    using eval_call_matches [OF that] unfolding eval_findings length_map
    by simp
  from split upper lower
    eval_finding_once [of content "path_name file_path"]
    matches_nothing_no_findings [of load_security_patterns content "path_name file_path"]
  show ?thesis
    by blast
qed

theorem security_scan_eval_reported_once_per_pattern_witness:
  "security_patterns (default_framework Map.empty) = load_security_patterns \<and>
   sublist ''eval('' ''x = eval(y); z = eval (w)'' \<and>
   count_list (scan_content load_security_patterns ''util.py'' ''x = eval(y); z = eval (w)'')
     (finding ''eval_patterns'' (''eval'' @ backslash # ''s*'' @ backslash # ''('') ''util.py'') = 1 \<and>
   matches_nothing load_security_patterns ''print(1)'' \<and>
   scan_content load_security_patterns ''ok.py'' ''print(1)'' = [] \<and>
   security_scan (default_framework Map.empty) scan_tree =
     ([finding ''eval_patterns'' (''eval'' @ backslash # ''s*'' @ backslash # ''('') ''util.py''],
      [''Could not scan pkg/setup.py: Permission denied''])"
proof -
  have p: "security_patterns (default_framework Map.empty) = load_security_patterns"
    by (simp add: default_framework_def)
  have nm: "path_name ''pkg/core/util.py'' = ''util.py''" "path_name ''pkg/ok.py'' = ''ok.py''"
    by (simp_all add: path_name_def)
  have e: "sublist ''eval('' ''x = eval(y); z = eval (w)''"
    by code_simp
  have n: "matches_nothing load_security_patterns ''print(1)''"
    by code_simp
  have s: "security_scan (default_framework Map.empty) scan_tree =
     ([finding ''eval_patterns'' (''eval'' @ backslash # ''s*'' @ backslash # ''('') ''util.py''],
      [''Could not scan pkg/setup.py: Permission denied''])"
    by code_simp
  from security_scan_eval_reported_once_per_pattern
         [OF p, of "[]" "''pkg/core/util.py''" "''x = eval(y); z = eval (w)''" "[]"] e
  have c: "count_list (scan_content load_security_patterns ''util.py'' ''x = eval(y); z = eval (w)'')
     (finding ''eval_patterns'' (''eval'' @ backslash # ''s*'' @ backslash # ''('') ''util.py'') = 1"
    by (simp add: nm)
  from security_scan_eval_reported_once_per_pattern
         [OF p, of "[]" "''pkg/ok.py''" "''print(1)''" "[]"] n
  have z: "scan_content load_security_patterns ''ok.py'' ''print(1)'' = []"
    by (simp add: nm)
  from p e c n z s show ?thesis
    by (simp only: simp_thms)
qed

text \<open>
  Claim C6 as stated fails: a file whose content contains \<open>eval(\<close> and also matches another
  pattern of the category (here \<open>compile\\s*\\(\<close>) is reported twice under \<open>eval_patterns\<close>,
  once for each pattern.
\<close>

theorem eval_file_reported_twice_counterexample:
  "sublist ''eval('' ''fn = re.compile(eval(src))'' \<and>
   under_category ''eval_patterns''
     (fst (security_scan (default_framework Map.empty)
             [(''pkg/util.py'', Inr ''fn = re.compile(eval(src))'')])) =
     [finding ''eval_patterns'' (''eval'' @ backslash # ''s*'' @ backslash # ''('') ''util.py'',
      finding ''eval_patterns'' (''compile'' @ backslash # ''s*'' @ backslash # ''('') ''util.py''] \<and>
   length (under_category ''eval_patterns''
     (fst (security_scan (default_framework Map.empty)
             [(''pkg/util.py'', Inr ''fn = re.compile(eval(src))'')]))) = 2"
  by code_simp


section \<open>Properties of \<open>list_packages\<close>\<close>

lemma dict_apply_other:
  "d \<noteq> a \<Longrightarrow> dict_objs (dict_apply d hp op) a = dict_objs hp a"
  by (cases op) (simp_all split: option.splits)

lemma dict_apply_frame:
  "meta_objs (dict_apply d hp op) = meta_objs hp"
  "next_ref (dict_apply d hp op) = next_ref hp"
  by (cases op; simp split: option.splits)+

lemma dict_ops_other:
  "d \<noteq> a \<Longrightarrow> dict_objs (foldl (dict_apply d) hp ops) a = dict_objs hp a"
  by (induction ops arbitrary: hp) (simp_all add: dict_apply_other)

lemma dict_ops_frame:
  "meta_objs (foldl (dict_apply d) hp ops) = meta_objs hp"
  by (induction ops arbitrary: hp) (simp_all add: dict_apply_frame)

text \<open>
  Claim C10.  Let the handler's dictionary be an allocated object of the store.
  \<open>list_packages\<close> returns a reference \<open>d\<close> to a new dictionary with the same entries.
  Whatever entries the client then sets or deletes in \<open>d\<close>, the handler's own dictionary and
  all records are what they were before \<open>list_packages\<close> was called; so the handler that
  the methods see is the same, and every later call (\<open>ingest\<close>, \<open>test_collaborate\<close>,
  \<open>conscript_install\<close>, \<open>kill_destroy\<close>, \<open>get_package_status\<close>) returns and leaves what it
  would have without the call and the client's changes.  (The copy is shallow: the entries
  of \<open>d\<close> refer to the handler's own record objects.)
\<close>

theorem list_packages_returns_copy:
  assumes "self_active < next_ref hp"
    and "list_packages hp self_active = (d, hp1)"
  shows "d \<noteq> self_active \<and>
         dict_objs hp1 d = dict_objs hp self_active \<and>
         dict_objs (foldl (dict_apply d) hp1 ops) self_active = dict_objs hp self_active \<and>
         meta_objs (foldl (dict_apply d) hp1 ops) = meta_objs hp \<and>
         handler_of base (foldl (dict_apply d) hp1 ops) self_active = handler_of base hp self_active \<and>
         step (handler_of base (foldl (dict_apply d) hp1 ops) self_active) c =
           step (handler_of base hp self_active) c \<and>
         get_package_status (handler_of base (foldl (dict_apply d) hp1 ops) self_active) n =
           get_package_status (handler_of base hp self_active) n"
proof -
  from assms have d: "d = next_ref hp"
    and hp1: "hp1 = hp\<lparr>dict_objs := (dict_objs hp)(d := dict_objs hp self_active), next_ref := Suc d\<rparr>"
    by (auto simp: list_packages_def Let_def)
  from d assms(1) have ne: "d \<noteq> self_active"
    by simp
  have copy: "dict_objs hp1 d = dict_objs hp self_active"
    by (simp add: hp1)
  have own: "dict_objs (foldl (dict_apply d) hp1 ops) self_active = dict_objs hp self_active"
    using ne by (simp add: dict_ops_other hp1)
  have recs: "meta_objs (foldl (dict_apply d) hp1 ops) = meta_objs hp"
    by (simp add: dict_ops_frame hp1)
  have "active_view (foldl (dict_apply d) hp1 ops) self_active = active_view hp self_active"
    unfolding active_view_def own recs ..
  then have same: "handler_of base (foldl (dict_apply d) hp1 ops) self_active =
      handler_of base hp self_active"
    by (simp add: handler_of_def)
  from ne copy own recs same show ?thesis
    by (simp only: simp_thms)
qed

theorem list_packages_returns_copy_witness:
  "(0::nat) < next_ref sample_heap \<and>
   fst (list_packages sample_heap 0) = 2 \<and>
   dict_objs (foldl (dict_apply 2) (snd (list_packages sample_heap 0))
                [SetItem ''numpy'' 1, DelItem ''requests'']) 2 =
     Some [''numpy'' \<mapsto> 1] \<and>
   dict_objs (foldl (dict_apply 2) (snd (list_packages sample_heap 0))
                [SetItem ''numpy'' 1, DelItem ''requests'']) 0 =
     dict_objs sample_heap 0 \<and>
   get_package_status
     (handler_of (init_handler False None None None)
        (foldl (dict_apply 2) (snd (list_packages sample_heap 0))
           [SetItem ''numpy'' 1, DelItem ''requests'']) 0) ''requests'' = Some INGESTING"
proof -
  have a: "(0::nat) < next_ref sample_heap"
    by (simp add: sample_heap_def)
  have f: "fst (list_packages sample_heap 0) = 2"
    by (simp add: list_packages_def sample_heap_def)
  then have l: "list_packages sample_heap 0 = (2, snd (list_packages sample_heap 0))"
    by (simp add: prod_eq_iff)
  have r: "dict_objs (foldl (dict_apply 2) (snd (list_packages sample_heap 0))
                [SetItem ''numpy'' 1, DelItem ''requests'']) 2 = Some [''numpy'' \<mapsto> 1]"
    by (simp add: list_packages_def sample_heap_def fun_upd_twist)
  have g: "get_package_status (handler_of (init_handler False None None None) sample_heap 0) ''requests'' =
      Some INGESTING"
    by (simp add: get_package_status_def handler_of_def active_view_def sample_heap_def new_metadata_def)
  note inst = list_packages_returns_copy [OF a l, of "[SetItem ''numpy'' 1, DelItem ''requests'']"
      "init_handler False None None None" _ "''requests''"]
  from inst have o: "dict_objs (foldl (dict_apply 2) (snd (list_packages sample_heap 0))
                [SetItem ''numpy'' 1, DelItem ''requests'']) 0 = dict_objs sample_heap 0"
    by blast
  from inst g have s: "get_package_status
     (handler_of (init_handler False None None None)
        (foldl (dict_apply 2) (snd (list_packages sample_heap 0))
           [SetItem ''numpy'' 1, DelItem ''requests'']) 0) ''requests'' = Some INGESTING"
    by metis
  from a f r o s show ?thesis
    by (simp only: simp_thms)
qed


end
